theory Spec2Isabelle
  imports Complex_Main
begin

chapter \<open>The model\<close>

section \<open>Errors and JavaScript containers\<close>

text \<open>
  The source throws \<open>StarkError\<close> and \<open>TypeError\<close> with a message, and
  \<open>new Array(n)\<close> with a negative length throws \<open>RangeError\<close>. A function that can
  throw returns \<open>error + 'a\<close>, with \<open>Inl\<close> the thrown error. The messages are the
  source's, without the numbers it interpolates into them.
\<close>

datatype error = StarkError string | TypeError string | RangeError string

text \<open>
  A JavaScript \<open>Set\<close> keeps its members in the order of their first insertion, and
  \<open>Array.from\<close> lists them in that order. The set is the list of its members;
  \<open>set_add\<close> is \<open>Set.prototype.add\<close>.
\<close>

definition set_add :: "'a list \<Rightarrow> 'a \<Rightarrow> 'a list" where
  "set_add result x = (if x \<in> set result then result else result @ [x])"

text \<open>\<open>Array.prototype.indexOf\<close>: the first index holding the value; \<open>None\<close> is -1.\<close>

fun indexOf :: "'a list \<Rightarrow> 'a \<Rightarrow> nat option" where
  "indexOf [] v = None"
| "indexOf (x # xs) v = (if x = v then Some 0 else map_option Suc (indexOf xs v))"

text \<open>Reading an array at an index: \<open>None\<close> is \<open>undefined\<close>, read past the end.\<close>

definition js_index :: "'a list \<Rightarrow> nat \<Rightarrow> 'a option" where
  "js_index xs i = (if i < length xs then Some (xs ! i) else None)"

text \<open>
  \<open>array[i] = v\<close>: an assignment past the end extends the array, leaving holes.
  An array that may have holes is a list of options.
\<close>

definition array_set :: "'a option list \<Rightarrow> nat \<Rightarrow> 'a \<Rightarrow> 'a option list" where
  "array_set xs i v =
     (if i < length xs then xs[i := Some v]
      else xs @ replicate (i - length xs) None @ [Some v])"

text \<open>
  "Deduplicated, in insertion order of first occurrence", in the library's terms
  (\<open>remdups\<close> keeps the last occurrence of each value, hence the reversals).
\<close>

definition first_occurrences :: "'a list \<Rightarrow> 'a list" where
  "first_occurrences xs = rev (remdups (rev xs))"

section \<open>The collaborators of the low-degree prover\<close>

text \<open>
  The finite field, the hash function, the Merkle tree and the query index generator
  are packages outside the repository. Each is a record of the operations the source
  calls, so that every definition below is parametric in them. Field elements
  (\<open>bigint\<close>) have type \<open>'a\<close>, buffers and digests have type \<open>'b\<close>. A record field
  whose name is also the name of a variable of the source carries its owner as a prefix.

  A \<open>Vector\<close> is the list of its elements and a \<open>Matrix\<close> the list of its rows.
\<close>

record ('a, 'b) FiniteField =
  field_elementSize :: nat
  mul :: "'a \<Rightarrow> 'a \<Rightarrow> 'a"
  exp_f :: "'a \<Rightarrow> nat \<Rightarrow> 'a"
  prng :: "'b \<Rightarrow> 'a"
  interpolate :: "'a list \<Rightarrow> 'a list \<Rightarrow> 'a list"
  evalPolyAt :: "'a list \<Rightarrow> 'a \<Rightarrow> 'a"
  getPowerSeries :: "'a \<Rightarrow> nat \<Rightarrow> 'a list"
  toBuffer :: "'a list \<Rightarrow> 'b"
  getRootOfUnity :: "nat \<Rightarrow> 'a"
  prngMany :: "'b \<Rightarrow> nat \<Rightarrow> 'a list"
  combine :: "'a list \<Rightarrow> 'a list \<Rightarrow> 'a"

record 'b Hash =
  digest :: "'b \<Rightarrow> 'b"

record 'b BatchMerkleProof =
  proof_values :: "'b list"
  proof_nodes :: "'b list"
  proof_depth :: nat

text \<open>
  A Merkle tree is determined by its leaves: \<open>MerkleTree.create(leaves, hash)\<close> is the
  list of leaves, and \<open>tree_root\<close>, \<open>proveBatch\<close> read it.
\<close>

record 'b MerkleTree =
  tree_root :: "'b list \<Rightarrow> 'b"
  proveBatch :: "'b list \<Rightarrow> nat list \<Rightarrow> 'b BatchMerkleProof"
  verifyBatch :: "'b \<Rightarrow> nat list \<Rightarrow> 'b BatchMerkleProof \<Rightarrow> bool"

text \<open>
  \<open>gen_extensionFactor\<close> is \<open>idxGenerator.extensionFactor\<close>; 0 stands for a value
  that is absent or 0, the two cases in which \<open>!extensionFactor\<close> holds.
\<close>

record 'b QueryIndexGenerator =
  gen_extensionFactor :: nat
  getExeIndexes :: "'b \<Rightarrow> nat \<Rightarrow> nat list"
  getFriIndexes :: "'b \<Rightarrow> nat \<Rightarrow> nat list"

subsection \<open>Vectors and matrices of the field package\<close>

text \<open>
  Modelled from the spec: the matrix and vector operations of the field package are not
  in the repository. \<open>transposeVector(v, columns, step)\<close> reads every \<open>step\<close>-th element
  of \<open>v\<close> and lays the \<open>n\<close> elements read out in \<open>columns\<close> columns of \<open>n / columns\<close>
  rows, row \<open>i\<close> holding the elements \<open>i, i + n/4, i + n/2, i + 3n/4\<close>;
  \<open>transposeMatrix\<close> followed by \<open>joinMatrixRows\<close> restores the vector.
  \<open>interpolateQuarticBatch\<close> interpolates row by row and \<open>evalQuarticBatch\<close> evaluates
  row by row. The buffer of a matrix is the concatenation of the buffers of its rows,
  so \<open>hash.digestValues(matrix.toBuffer(), rowSize)\<close> is the list of the digests of the
  rows' buffers.
\<close>

definition rowCount :: "'a list list \<Rightarrow> nat" where
  "rowCount m = length m"

definition colCount :: "'a list list \<Rightarrow> nat" where
  "colCount m = (case m of [] \<Rightarrow> 0 | r # _ \<Rightarrow> length r)"

definition transposeVector :: "'a list \<Rightarrow> nat \<Rightarrow> nat \<Rightarrow> 'a list list" where
  "transposeVector v columns step =
     (let rows = length v div (columns * step)
      in map (\<lambda>i. map (\<lambda>j. v ! ((i + j * rows) * step)) [0..<columns]) [0..<rows])"

definition transposeMatrix :: "'a list list \<Rightarrow> 'a list list" where
  "transposeMatrix m = map (\<lambda>j. map (\<lambda>row. row ! j) m) [0..<colCount m]"

definition joinMatrixRows :: "'a list list \<Rightarrow> 'a list" where
  "joinMatrixRows m = concat m"

definition interpolateQuarticBatch ::
  "('a, 'b) FiniteField \<Rightarrow> 'a list list \<Rightarrow> 'a list list \<Rightarrow> 'a list list" where
  "interpolateQuarticBatch F xs ys = map (\<lambda>(x, y). interpolate F x y) (zip xs ys)"

definition evalQuarticBatch :: "('a, 'b) FiniteField \<Rightarrow> 'a list list \<Rightarrow> 'a \<Rightarrow> 'a list" where
  "evalQuarticBatch F polys x = map (\<lambda>p. evalPolyAt F p x) polys"

definition digestValues :: "'b Hash \<Rightarrow> ('a, 'b) FiniteField \<Rightarrow> 'a list list \<Rightarrow> 'b list" where
  "digestValues H F m = map (\<lambda>row. digest H (toBuffer F row)) m"

text \<open>
  \<open>matrix.rowsToBuffers(positions)\<close>, as the older prover writes it out:
  \<open>vectors[position].toBuffer()\<close> for each position, which throws on a position that
  is not a row.
\<close>

definition rowsToBuffers ::
  "('a, 'b) FiniteField \<Rightarrow> 'a list list \<Rightarrow> nat list \<Rightarrow> error + 'b list" where
  "rowsToBuffers F m positions =
     (if \<forall>position \<in> set positions. position < length m
      then Inr (map (\<lambda>position. toBuffer F (m ! position)) positions)
      else Inl (TypeError ''Cannot read properties of undefined''))"

text \<open>
  Modelled from the spec: \<open>utils.rehashMerkleProofValues\<close> is not in the repository.
  It returns a proof whose values are the digests of the given proof's values.
\<close>

definition rehashMerkleProofValues :: "'b BatchMerkleProof \<Rightarrow> 'b Hash \<Rightarrow> 'b BatchMerkleProof" where
  "rehashMerkleProofValues prf H = prf\<lparr>proof_values := map (digest H) (proof_values prf)\<rparr>"

section \<open>The low-degree prover\<close>

record 'b FriComponent =
  comp_columnRoot :: 'b
  comp_columnProof :: "'b BatchMerkleProof"
  comp_polyProof :: "'b BatchMerkleProof"

record ('a, 'b) LowDegreeProof =
  ldp_lcRoot :: 'b
  ldp_lcProof :: "'b BatchMerkleProof"
  ldp_components :: "'b FriComponent option list"
  ldp_remainder :: "'a list"

text \<open>
  The object \<open>this\<close>: the fields the constructor sets, and with them the two imports
  of the module that are not in the repository, the Merkle tree package and
  \<open>utils.readBigInt(buffer, offset, elementSize)\<close>.
\<close>

record ('a, 'b) LowDegreeProver =
  this_field :: "('a, 'b) FiniteField"
  this_polyRowSize :: nat
  this_rootOfUnity :: 'a
  this_hash :: "'b Hash"
  this_idxGenerator :: "'b QueryIndexGenerator"
  this_merkle :: "'b MerkleTree"
  this_readBigInt :: "'b \<Rightarrow> nat \<Rightarrow> nat \<Rightarrow> 'a"

definition MAX_REMAINDER_LENGTH :: nat where
  "MAX_REMAINDER_LENGTH = 256"

definition REMAINDER_SLOTS :: real where
  "REMAINDER_SLOTS = log 2 (real MAX_REMAINDER_LENGTH) / 2"

subsection \<open>Helper functions\<close>

text \<open>
  \<open>getComponentCount\<close>: \<open>Math.log2\<close> and \<open>Math.ceil\<close> are the real logarithm and
  ceiling (for \<open>valueCount \<ge> 1\<close>; the source computes \<open>-Infinity\<close> at 0).
\<close>

definition getComponentCount :: "nat \<Rightarrow> real" where
  "getComponentCount valueCount =
     (let result = real_of_int \<lceil>log 2 (real valueCount) / 2\<rceil>;
          result = result - REMAINDER_SLOTS
      in min result 0)"

text \<open>
  \<open>getRootOfUnityDegree\<close> squares until it reaches 1, which it need not: the loop is
  a partial function, and \<open>None\<close> is a run that never leaves the loop.
\<close>

partial_function (option) rootOfUnityDegree_loop ::
  "('a::one \<Rightarrow> 'a \<Rightarrow> 'a) \<Rightarrow> nat \<Rightarrow> 'a \<Rightarrow> nat option" where
  "rootOfUnityDegree_loop m result r =
     (if r \<noteq> 1 then rootOfUnityDegree_loop m (result * 2) (m r r) else Some result)"

declare rootOfUnityDegree_loop.simps [code]

definition getRootOfUnityDegree :: "'a::one \<Rightarrow> ('a, 'b) FiniteField \<Rightarrow> nat option" where
  "getRootOfUnityDegree r F = rootOfUnityDegree_loop (mul F) 1 r"

text \<open>
  \<open>getAugmentedPositions(positions, columnLength)\<close>: \<open>rowLength = columnLength / 4\<close>
  is a floating-point quotient and each member is \<open>Math.floor(position % rowLength)\<close>.
  For natural numbers \<open>p\<close> and \<open>c > 0\<close> the remainder of \<open>p\<close> by \<open>c / 4\<close> is
  \<open>((4 * p) mod c) / 4\<close>, exactly representable, and its floor is
  \<open>((4 * p) mod c) div 4\<close>. At \<open>columnLength = 0\<close> the source computes NaN; the model
  covers \<open>columnLength > 0\<close>. The older prover takes the row length as its argument and
  its callers pass \<open>columnLength / 4\<close>: it is the same function of the column length.
\<close>

definition floor_mod_quarter :: "nat \<Rightarrow> nat \<Rightarrow> nat" where
  "floor_mod_quarter position columnLength = ((4 * position) mod columnLength) div 4"

definition getAugmentedPositions :: "nat list \<Rightarrow> nat \<Rightarrow> nat list" where
  "getAugmentedPositions positions columnLength =
     fold (\<lambda>position result. set_add result (floor_mod_quarter position columnLength))
       positions []"

subsection \<open>Parsers\<close>

definition parsePolyValues :: "('a, 'b) LowDegreeProver \<Rightarrow> 'b list \<Rightarrow> 'a list list" where
  "parsePolyValues this buffers =
     (let elementSize = field_elementSize (this_field this)
      in map (\<lambda>buffer. map (\<lambda>i. this_readBigInt this buffer (i * elementSize) elementSize)
                          [0..<4])
           buffers)"

text \<open>
  One round of the loop of \<open>parseColumnValues\<close>. \<open>position % rowLength\<close> is
  \<open>((4 * position) mod columnLength) / 4\<close>, which \<open>indexOf\<close> can only find among the
  augmented positions when it is a whole number;
  \<open>Math.floor(position / rowLength)\<close> is \<open>(4 * position) div columnLength\<close>. When
  \<open>indexOf\<close> answers -1, or an index past the buffers, \<open>buffer\<close> is \<open>undefined\<close> and
  reading from it throws.
\<close>

definition parseColumnValue ::
  "('a, 'b) LowDegreeProver \<Rightarrow> 'b list \<Rightarrow> nat list \<Rightarrow> nat \<Rightarrow> nat \<Rightarrow> error + 'a" where
  "parseColumnValue this buffers augmentedPositions columnLength position =
     (let elementSize = field_elementSize (this_field this);
          idx = (if columnLength = 0 \<or> ((4 * position) mod columnLength) mod 4 \<noteq> 0 then None
                 else indexOf augmentedPositions (((4 * position) mod columnLength) div 4))
      in case idx of
           None \<Rightarrow> Inl (TypeError ''Cannot read properties of undefined'')
         | Some i \<Rightarrow>
             if i < length buffers
             then Inr (this_readBigInt this (buffers ! i)
                         (((4 * position) div columnLength) * elementSize) elementSize)
             else Inl (TypeError ''Cannot read properties of undefined''))"

fun parseColumnValues_loop ::
  "('a, 'b) LowDegreeProver \<Rightarrow> 'b list \<Rightarrow> nat list \<Rightarrow> nat \<Rightarrow> nat list \<Rightarrow> 'a list \<Rightarrow>
   error + 'a list" where
  "parseColumnValues_loop this buffers augmentedPositions columnLength [] result = Inr result"
| "parseColumnValues_loop this buffers augmentedPositions columnLength (position # positions)
     result =
     (case parseColumnValue this buffers augmentedPositions columnLength position of
        Inl e \<Rightarrow> Inl e
      | Inr v \<Rightarrow>
          parseColumnValues_loop this buffers augmentedPositions columnLength positions
            (result @ [v]))"

definition parseColumnValues ::
  "('a, 'b) LowDegreeProver \<Rightarrow> 'b list \<Rightarrow> nat list \<Rightarrow> nat list \<Rightarrow> nat \<Rightarrow> error + 'a list" where
  "parseColumnValues this buffers positions augmentedPositions columnLength =
     parseColumnValues_loop this buffers augmentedPositions columnLength positions []"

subsection \<open>The remainder check\<close>

text \<open>
  \<open>verifyRemainder\<close>. When \<open>maxDegreePlus1\<close> exceeds the number of selected positions,
  \<open>positions[i]\<close> is \<open>undefined\<close> for the last rounds of the first loop and the field
  package is handed \<open>undefined\<close> coordinates; the model lets that throw a
  \<open>TypeError\<close>, and what the package does there is outside the repository.
\<close>

definition verifyRemainder ::
  "('a, 'b) LowDegreeProver \<Rightarrow> 'a list \<Rightarrow> nat \<Rightarrow> 'a \<Rightarrow> error + unit" where
  "verifyRemainder this remainder maxDegreePlus1 rootOfUnity =
     (let extensionFactor = gen_extensionFactor (this_idxGenerator this);
          positions = filter (\<lambda>i. extensionFactor = 0 \<or> i mod extensionFactor \<noteq> 0)
                        [0..<length remainder];
          domain = getPowerSeries (this_field this) rootOfUnity (length remainder)
      in if length positions < maxDegreePlus1
         then Inl (TypeError ''Cannot mix BigInt and other types'')
         else
           let xs = map (\<lambda>i. domain ! (positions ! i)) [0..<maxDegreePlus1];
               ys = map (\<lambda>i. remainder ! (positions ! i)) [0..<maxDegreePlus1];
               poly = interpolate (this_field this) xs ys
           in if \<exists>i \<in> set [maxDegreePlus1..<length positions].
                   evalPolyAt (this_field this) poly (domain ! (positions ! i))
                     \<noteq> remainder ! (positions ! i)
              then Inl (StarkError ''Remainder is not a valid degree polynomial'')
              else Inr ())"

subsection \<open>The verifier\<close>

text \<open>
  The variables the loop of \<open>verify\<close> carries from one component to the next.
\<close>

record ('a, 'b) verify_state =
  st_pRoot :: 'b
  st_rootOfUnity :: 'a
  st_maxDegreePlus1 :: nat
  st_columnLength :: nat

text \<open>
  The parts of the loop body that the claims name: the positions queried, the column
  values read from the column proof, the evaluations at \<open>specialX\<close> of the
  polynomials interpolated from the polynomial proof, and the update of the loop
  variables.
\<close>

definition componentPositions ::
  "('a, 'b) LowDegreeProver \<Rightarrow> ('a, 'b) verify_state \<Rightarrow> 'b FriComponent \<Rightarrow> nat list" where
  "componentPositions this st c =
     getFriIndexes (this_idxGenerator this) (comp_columnRoot c) (st_columnLength st)"

definition componentColumnValues ::
  "('a, 'b) LowDegreeProver \<Rightarrow> ('a, 'b) verify_state \<Rightarrow> 'b FriComponent \<Rightarrow> error + 'a list" where
  "componentColumnValues this st c =
     (let columnLength = st_columnLength st;
          positions = componentPositions this st c;
          augmentedPositions = getAugmentedPositions positions columnLength
      in parseColumnValues this (proof_values (comp_columnProof c)) positions
           augmentedPositions columnLength)"

definition componentXs ::
  "('a, 'b) LowDegreeProver \<Rightarrow> 'a list \<Rightarrow> ('a, 'b) verify_state \<Rightarrow> 'b FriComponent \<Rightarrow>
   'a list list" where
  "componentXs this quarticRootsOfUnity st c =
     map (\<lambda>position.
            let xe = exp_f (this_field this) (st_rootOfUnity st) position
            in map (\<lambda>j. mul (this_field this) (quarticRootsOfUnity ! j) xe) [0..<4])
       (componentPositions this st c)"

definition componentEvaluations ::
  "('a, 'b) LowDegreeProver \<Rightarrow> 'a list \<Rightarrow> ('a, 'b) verify_state \<Rightarrow> 'b FriComponent \<Rightarrow> 'a list" where
  "componentEvaluations this quarticRootsOfUnity st c =
     (let polyValues = parsePolyValues this (proof_values (comp_polyProof c));
          xs = componentXs this quarticRootsOfUnity st c;
          specialX = prng (this_field this) (st_pRoot st);
          xValues = xs;
          yValues = polyValues;
          polys = interpolateQuarticBatch (this_field this) xValues yValues;
          pEvaluations = evalQuarticBatch (this_field this) polys specialX
      in pEvaluations)"

definition nextState ::
  "('a, 'b) LowDegreeProver \<Rightarrow> ('a, 'b) verify_state \<Rightarrow> 'b FriComponent \<Rightarrow>
   ('a, 'b) verify_state" where
  "nextState this st c =
     \<lparr>st_pRoot = comp_columnRoot c,
      st_rootOfUnity = exp_f (this_field this) (st_rootOfUnity st) 4,
      st_maxDegreePlus1 = st_maxDegreePlus1 st div 4,
      st_columnLength = st_columnLength st div 4\<rparr>"

text \<open>
  The body of the loop over \<open>proof.components\<close>. A hole in the array is \<open>undefined\<close>,
  which the destructuring assignment cannot take apart. The loop over
  \<open>polys.rowCount\<close> compares \<open>pEvaluations.getValue(i)\<close> with \<open>columnValues[i]\<close>, either
  of which is \<open>undefined\<close> past the end.
\<close>

definition verifyComponent ::
  "('a, 'b) LowDegreeProver \<Rightarrow> 'a list \<Rightarrow> nat \<Rightarrow> ('a, 'b) verify_state \<Rightarrow>
   'b FriComponent option \<Rightarrow> error + ('a, 'b) verify_state" where
  "verifyComponent this quarticRootsOfUnity depth st component =
     (case component of
        None \<Rightarrow> Inl (TypeError ''Cannot destructure undefined'')
      | Some c \<Rightarrow>
          let columnRoot = comp_columnRoot c;
              columnProof = comp_columnProof c;
              polyProof = comp_polyProof c;
              pRoot = st_pRoot st;
              columnLength = st_columnLength st;
              positions = componentPositions this st c;
              augmentedPositions = getAugmentedPositions positions columnLength
          in case componentColumnValues this st c of
               Inl e \<Rightarrow> Inl e
             | Inr columnValues \<Rightarrow>
                 let columnProof = rehashMerkleProofValues columnProof (this_hash this)
                 in if \<not> verifyBatch (this_merkle this) columnRoot augmentedPositions columnProof
                    then Inl (StarkError ''Verification of column Merkle proof failed at depth'')
                    else
                      let polyProof = rehashMerkleProofValues polyProof (this_hash this)
                      in if \<not> verifyBatch (this_merkle this) pRoot positions polyProof
                         then Inl (StarkError
                                ''Verification of polynomial Merkle proof failed at depth'')
                         else
                           let pEvaluations = componentEvaluations this quarticRootsOfUnity st c
                           in if \<exists>i \<in> set [0..<length pEvaluations].
                                   js_index pEvaluations i \<noteq> js_index columnValues i
                              then Inl (StarkError
                                ''Degree 4 polynomial didn't evaluate to column value at depth'')
                              else Inr (nextState this st c))"

fun verifyComponents ::
  "('a, 'b) LowDegreeProver \<Rightarrow> 'a list \<Rightarrow> nat \<Rightarrow> ('a, 'b) verify_state \<Rightarrow>
   'b FriComponent option list \<Rightarrow> error + ('a, 'b) verify_state" where
  "verifyComponents this quarticRootsOfUnity depth st [] = Inr st"
| "verifyComponents this quarticRootsOfUnity depth st (component # rest) =
     (case verifyComponent this quarticRootsOfUnity depth st component of
        Inl e \<Rightarrow> Inl e
      | Inr st' \<Rightarrow> verifyComponents this quarticRootsOfUnity (depth + 1) st' rest)"

definition quarticRoots :: "('a::one, 'b) FiniteField \<Rightarrow> 'a \<Rightarrow> nat \<Rightarrow> 'a list" where
  "quarticRoots F rootOfUnity columnLength =
     [1,
      exp_f F rootOfUnity (columnLength div 4),
      exp_f F rootOfUnity (columnLength div 2),
      exp_f F rootOfUnity (columnLength * 3 div 4)]"

text \<open>
  \<open>verify\<close> of the newer prover. The result is \<open>None\<close> when the call never returns,
  \<open>Some (Inl e)\<close> when it throws \<open>e\<close> and \<open>Some (Inr b)\<close> when it returns \<open>b\<close>.
\<close>

definition verify ::
  "('a::one, 'b) LowDegreeProver \<Rightarrow> ('a, 'b) LowDegreeProof \<Rightarrow> 'a list \<Rightarrow> nat list \<Rightarrow> nat \<Rightarrow>
   (error + bool) option" where
  "verify this prf lcValues exeQueryPositions maxDegreePlus1 =
     (let rootOfUnity = this_rootOfUnity this
      in case getRootOfUnityDegree rootOfUnity (this_field this) of
           None \<Rightarrow> None
         | Some columnLength \<Rightarrow> Some
            (let quarticRootsOfUnity = quarticRoots (this_field this) rootOfUnity columnLength;
                 lcProof = ldp_lcProof prf;
                 lcPositions = getAugmentedPositions exeQueryPositions columnLength
             in case parseColumnValues this (proof_values lcProof) exeQueryPositions
                       lcPositions columnLength of
                  Inl e \<Rightarrow> Inl e
                | Inr lcChecks \<Rightarrow>
                    let lcProof = rehashMerkleProofValues lcProof (this_hash this)
                    in if \<not> verifyBatch (this_merkle this) (ldp_lcRoot prf) lcPositions lcProof
                       then Inl (StarkError
                              ''Verification of linear combination Merkle proof failed'')
                       else if \<exists>i \<in> set [0..<length lcValues].
                                 Some (lcValues ! i) \<noteq> js_index lcChecks i
                       then Inl (StarkError
                              ''Verification of linear combination correctness failed'')
                       else
                         case verifyComponents this quarticRootsOfUnity 0
                                \<lparr>st_pRoot = ldp_lcRoot prf, st_rootOfUnity = rootOfUnity,
                                 st_maxDegreePlus1 = maxDegreePlus1,
                                 st_columnLength = columnLength div 4\<rparr>
                                (ldp_components prf) of
                           Inl e \<Rightarrow> Inl e
                         | Inr st \<Rightarrow>
                             if st_maxDegreePlus1 st > length (ldp_remainder prf)
                             then Inl (StarkError
                               ''Remainder degree is greater than number of remainder values'')
                             else
                               let remainder = ldp_remainder prf;
                                   polyValues = transposeVector remainder 4 1;
                                   polyHashes = digestValues (this_hash this) (this_field this)
                                                  polyValues;
                                   cTree = polyHashes
                               in if tree_root (this_merkle this) cTree \<noteq> st_pRoot st
                                  then Inl (StarkError
                                    ''Remainder values do not match Merkle root of the last column'')
                                  else
                                    case verifyRemainder this remainder (st_maxDegreePlus1 st)
                                           (st_rootOfUnity st) of
                                      Inl e \<Rightarrow> Inl e
                                    | Inr _ \<Rightarrow> Inr True))"

subsection \<open>The prover\<close>

text \<open>
  \<open>fri\<close> in three parts. \<open>friFold\<close> is what the recursive branch computes before it
  calls itself: the column of the evaluations at \<open>specialX\<close>, the matrix of the next
  layer and its Merkle tree. \<open>friComponent\<close> is what it computes after the call: the
  spot checks and the component. \<open>fri\<close> puts them together and assigns
  \<open>result.components[depth]\<close>.
\<close>

definition friFold ::
  "('a, 'b) LowDegreeProver \<Rightarrow> 'b list \<Rightarrow> 'a list list \<Rightarrow> nat \<Rightarrow> 'a list \<Rightarrow>
   'a list \<times> 'a list list \<times> 'b list" where
  "friFold this pTree polyValues depth domain =
     (let xs = transposeVector domain 4 (4 ^ depth);
          polys = interpolateQuarticBatch (this_field this) xs polyValues;
          specialX = prng (this_field this) (tree_root (this_merkle this) pTree);
          column = evalQuarticBatch (this_field this) polys specialX;
          newPolyValues = transposeVector column 4 1;
          rowHashes = digestValues (this_hash this) (this_field this) newPolyValues;
          cTree = rowHashes
      in (column, newPolyValues, cTree))"

definition friComponent ::
  "('a, 'b) LowDegreeProver \<Rightarrow> 'b list \<Rightarrow> 'a list list \<Rightarrow> 'a list \<Rightarrow> 'a list list \<Rightarrow> 'b list \<Rightarrow>
   error + 'b FriComponent" where
  "friComponent this pTree polyValues column newPolyValues cTree =
     (let positions = getFriIndexes (this_idxGenerator this)
                        (tree_root (this_merkle this) cTree) (length column);
          augmentedPositions = getAugmentedPositions positions (length column);
          columnProof = proveBatch (this_merkle this) cTree augmentedPositions
      in case rowsToBuffers (this_field this) newPolyValues augmentedPositions of
           Inl e \<Rightarrow> Inl e
         | Inr columnBuffers \<Rightarrow>
             let columnProof = columnProof\<lparr>proof_values := columnBuffers\<rparr>;
                 polyProof = proveBatch (this_merkle this) pTree positions
             in case rowsToBuffers (this_field this) polyValues positions of
                  Inl e \<Rightarrow> Inl e
                | Inr polyBuffers \<Rightarrow>
                    let polyProof = polyProof\<lparr>proof_values := polyBuffers\<rparr>
                    in Inr \<lparr>comp_columnRoot = tree_root (this_merkle this) cTree,
                            comp_columnProof = columnProof,
                            comp_polyProof = polyProof\<rparr>)"

function fri ::
  "('a, 'b) LowDegreeProver \<Rightarrow> 'b list \<Rightarrow> 'a list list \<Rightarrow> nat \<Rightarrow> nat \<Rightarrow> 'a list \<Rightarrow>
   ('a, 'b) LowDegreeProof \<Rightarrow> error + ('a, 'b) LowDegreeProof" where
  "fri this pTree polyValues maxDegreePlus1 depth domain result =
     (if rowCount polyValues * colCount polyValues \<le> MAX_REMAINDER_LENGTH then
        let rootOfUnity = exp_f (this_field this) (domain ! 1) (4 ^ depth);
            tValues = transposeMatrix polyValues;
            remainder = joinMatrixRows tValues
        in case verifyRemainder this remainder maxDegreePlus1 rootOfUnity of
             Inl e \<Rightarrow> Inl e
           | Inr _ \<Rightarrow> Inr (result\<lparr>ldp_remainder := remainder\<rparr>)
      else
        case friFold this pTree polyValues depth domain of
          (column, newPolyValues, cTree) \<Rightarrow>
            (case fri this cTree newPolyValues (maxDegreePlus1 div 4) (depth + 1) domain result of
               Inl e \<Rightarrow> Inl e
             | Inr result \<Rightarrow>
                 (case friComponent this pTree polyValues column newPolyValues cTree of
                    Inl e \<Rightarrow> Inl e
                  | Inr component \<Rightarrow>
                      Inr (result\<lparr>ldp_components :=
                             array_set (ldp_components result) depth component\<rparr>))))"
  by pat_completeness auto
termination
proof (relation "measure (\<lambda>(this, pTree, polyValues, rest). length polyValues)", goal_cases)
  case 1
  show ?case by simp
next
  case (2 this pTree polyValues maxDegreePlus1 depth domain result column rest newPolyValues cTree)
  from 2(1) have pos: "0 < length polyValues"
    by (cases polyValues) (simp_all add: rowCount_def)
  from 2(2,3) have fold: "friFold this pTree polyValues depth domain = (column, newPolyValues, cTree)"
    by simp
  have "length column \<le> length polyValues"
    using fold
    by (auto simp: friFold_def Let_def evalQuarticBatch_def interpolateQuarticBatch_def)
  moreover have "length newPolyValues = length column div 4"
    using fold by (auto simp: friFold_def Let_def transposeVector_def)
  ultimately have "length newPolyValues < length polyValues"
    using pos by arith
  then show ?case by simp
qed

declare fri.simps [simp del]

text \<open>
  \<open>prove\<close>, in two parts: \<open>prove\<close> computes \<open>componentCount\<close> with
  \<open>getComponentCount\<close> and \<open>proveWithCount\<close> is the body of the method with that
  number given. \<open>new Array(componentCount)\<close> throws \<open>RangeError\<close> on a negative length
  and otherwise makes an array of \<open>componentCount\<close> holes.
\<close>

definition proveWithCount ::
  "('a, 'b) LowDegreeProver \<Rightarrow> 'a list \<Rightarrow> 'a list \<Rightarrow> nat \<Rightarrow> real \<Rightarrow>
   error + ('a, 'b) LowDegreeProof" where
  "proveWithCount this cEvaluations domain maxDegreePlus1 componentCount =
     (let polyValues = transposeVector cEvaluations 4 1;
          polyHashes = digestValues (this_hash this) (this_field this) polyValues;
          pTree = polyHashes;
          exeQueryPositions = getExeIndexes (this_idxGenerator this)
                                (tree_root (this_merkle this) pTree) (length domain);
          lcPositions = getAugmentedPositions exeQueryPositions (length cEvaluations);
          lcProof = proveBatch (this_merkle this) pTree lcPositions
      in case rowsToBuffers (this_field this) polyValues lcPositions of
           Inl e \<Rightarrow> Inl e
         | Inr lcBuffers \<Rightarrow>
             let lcProof = lcProof\<lparr>proof_values := lcBuffers\<rparr>
             in if componentCount < 0 then Inl (RangeError ''Invalid array length'')
                else
                  let prf = \<lparr>ldp_lcRoot = tree_root (this_merkle this) pTree,
                             ldp_lcProof = lcProof,
                             ldp_components = replicate (nat \<lfloor>componentCount\<rfloor>) None,
                             ldp_remainder = []\<rparr>
                  in fri this pTree polyValues maxDegreePlus1 0 domain prf)"

definition prove ::
  "('a, 'b) LowDegreeProver \<Rightarrow> 'a list \<Rightarrow> 'a list \<Rightarrow> nat \<Rightarrow> error + ('a, 'b) LowDegreeProof" where
  "prove this cEvaluations domain maxDegreePlus1 =
     proveWithCount this cEvaluations domain maxDegreePlus1
       (getComponentCount (length cEvaluations))"

section \<open>The older low-degree prover\<close>

text \<open>
  The repository holds a second, older \<open>LowDegreeProver\<close>, the one the outer STARK
  calls. Its proof has no linear combination part and keeps the remainder as buffers;
  its \<open>verify\<close> takes the root, the degree bound and the root of unity as arguments,
  and assigns the hashed values to \<open>columnProof.values\<close> and \<open>polyProof.values\<close> of the
  proof it was given. Its functions carry the suffix \<open>_old\<close>; its object is the same
  record, of which it reads neither \<open>this_rootOfUnity\<close> nor \<open>this_polyRowSize\<close>.
\<close>

record 'b LowDegreeProof_old =
  old_components :: "'b FriComponent option list"
  old_remainder :: "'b list"

record ('a, 'b) verify_state_old =
  st_lRoot :: 'b
  st_rootOfUnity_old :: 'a
  st_maxDegreePlus1_old :: nat
  st_rouDegree :: nat

definition hashBuffers :: "'b list \<Rightarrow> 'b Hash \<Rightarrow> 'b list" where
  "hashBuffers values_b H = map (digest H) values_b"

text \<open>
  Modelled from the spec: \<open>utils.buffersToBigInts\<close> is not in the repository. Each
  buffer of the remainder holds one field element. \<open>splitBuffer\<close> cuts the buffer of a
  vector into the buffers of its elements.
\<close>

definition buffersToBigInts :: "('a, 'b) LowDegreeProver \<Rightarrow> 'b list \<Rightarrow> 'a list" where
  "buffersToBigInts this buffers =
     map (\<lambda>buffer. this_readBigInt this buffer 0 (field_elementSize (this_field this))) buffers"

definition splitBuffer :: "('a, 'b) FiniteField \<Rightarrow> 'a list \<Rightarrow> 'b list" where
  "splitBuffer F v = map (\<lambda>x. toBuffer F [x]) v"

text \<open>
  The loop body of the older \<open>verify\<close> returns, beside its outcome, the component as
  the assignments to \<open>columnProof.values\<close> and \<open>polyProof.values\<close> have left it.
\<close>

definition verifyComponent_old ::
  "('a, 'b) LowDegreeProver \<Rightarrow> 'a list \<Rightarrow> nat \<Rightarrow> ('a, 'b) verify_state_old \<Rightarrow>
   'b FriComponent option \<Rightarrow> (error + ('a, 'b) verify_state_old) \<times> 'b FriComponent option" where
  "verifyComponent_old this quarticRootsOfUnity depth st component =
     (case component of
        None \<Rightarrow> (Inl (TypeError ''Cannot destructure undefined''), component)
      | Some c \<Rightarrow>
          let columnRoot = comp_columnRoot c;
              columnProof = comp_columnProof c;
              polyProof = comp_polyProof c;
              lRoot = st_lRoot st;
              rootOfUnity = st_rootOfUnity_old st;
              maxDegreePlus1 = st_maxDegreePlus1_old st;
              rouDegree = st_rouDegree st;
              columnLength = rouDegree div 4;
              positions = getFriIndexes (this_idxGenerator this) columnRoot columnLength;
              augmentedPositions = getAugmentedPositions positions columnLength
          in case parseColumnValues this (proof_values columnProof) positions
                    augmentedPositions columnLength of
               Inl e \<Rightarrow> (Inl e, component)
             | Inr columnValues \<Rightarrow>
                 let columnProof = columnProof
                       \<lparr>proof_values := hashBuffers (proof_values columnProof) (this_hash this)\<rparr>;
                     c = c\<lparr>comp_columnProof := columnProof\<rparr>
                 in if \<not> verifyBatch (this_merkle this) columnRoot augmentedPositions columnProof
                    then (Inl (StarkError ''Verification of column Merkle proof failed at depth''),
                          Some c)
                    else
                      let ys = parsePolyValues this (proof_values polyProof);
                          polyProof = polyProof
                            \<lparr>proof_values := hashBuffers (proof_values polyProof) (this_hash this)\<rparr>;
                          c = c\<lparr>comp_polyProof := polyProof\<rparr>
                      in if \<not> verifyBatch (this_merkle this) lRoot positions polyProof
                         then (Inl (StarkError
                                 ''Verification of polynomial Merkle proof failed at depth''),
                               Some c)
                         else
                           let xs = map (\<lambda>position.
                                          let xe = exp_f (this_field this) rootOfUnity position
                                          in map (\<lambda>j. mul (this_field this)
                                                         (quarticRootsOfUnity ! j) xe) [0..<4])
                                        positions;
                               specialX = prng (this_field this) lRoot;
                               polys = interpolateQuarticBatch (this_field this) xs ys;
                               polyVectors = polys
                           in if \<exists>i \<in> set [0..<rowCount polys].
                                   Some (evalPolyAt (this_field this) (polyVectors ! i) specialX)
                                     \<noteq> js_index columnValues i
                              then (Inl (StarkError
                                ''Degree 4 polynomial didn't evaluate to column value at depth''),
                                Some c)
                              else (Inr \<lparr>st_lRoot = columnRoot,
                                         st_rootOfUnity_old = exp_f (this_field this) rootOfUnity 4,
                                         st_maxDegreePlus1_old = maxDegreePlus1 div 4,
                                         st_rouDegree = rouDegree div 4\<rparr>,
                                    Some c))"

text \<open>
  The loop: \<open>checked\<close> are the components already visited, as the loop has left them.
\<close>

fun verifyComponents_old ::
  "('a, 'b) LowDegreeProver \<Rightarrow> 'a list \<Rightarrow> nat \<Rightarrow> ('a, 'b) verify_state_old \<Rightarrow>
   'b FriComponent option list \<Rightarrow> 'b FriComponent option list \<Rightarrow>
   (error + ('a, 'b) verify_state_old) \<times> 'b FriComponent option list" where
  "verifyComponents_old this quarticRootsOfUnity depth st checked [] = (Inr st, checked)"
| "verifyComponents_old this quarticRootsOfUnity depth st checked (component # rest) =
     (case verifyComponent_old this quarticRootsOfUnity depth st component of
        (Inl e, component') \<Rightarrow> (Inl e, checked @ component' # rest)
      | (Inr st', component') \<Rightarrow>
          verifyComponents_old this quarticRootsOfUnity (depth + 1) st'
            (checked @ [component']) rest)"

text \<open>
  \<open>verify\<close> of the older prover: \<open>None\<close> when the call never returns, otherwise the
  outcome together with the proof object as the call has left it.
\<close>

definition verify_old ::
  "('a::one, 'b) LowDegreeProver \<Rightarrow> 'b \<Rightarrow> nat \<Rightarrow> 'a \<Rightarrow> 'b LowDegreeProof_old \<Rightarrow>
   ((error + bool) \<times> 'b LowDegreeProof_old) option" where
  "verify_old this lRoot maxDegreePlus1 rootOfUnity prf =
     (case getRootOfUnityDegree rootOfUnity (this_field this) of
        None \<Rightarrow> None
      | Some rouDegree \<Rightarrow> Some
         (let quarticRootsOfUnity = quarticRoots (this_field this) rootOfUnity rouDegree
          in case verifyComponents_old this quarticRootsOfUnity 0
                    \<lparr>st_lRoot = lRoot, st_rootOfUnity_old = rootOfUnity,
                     st_maxDegreePlus1_old = maxDegreePlus1, st_rouDegree = rouDegree\<rparr>
                    [] (old_components prf) of
               (Inl e, components') \<Rightarrow> (Inl e, prf\<lparr>old_components := components'\<rparr>)
             | (Inr st, components') \<Rightarrow>
                 (let prf = prf\<lparr>old_components := components'\<rparr>
                  in if st_maxDegreePlus1_old st > length (old_remainder prf)
                     then (Inl (StarkError
                             ''Remainder degree is greater than number of remainder values''), prf)
                     else
                       let remainder = buffersToBigInts this (old_remainder prf);
                           rMatrix = transposeVector remainder 4 1;
                           rHashes = digestValues (this_hash this) (this_field this) rMatrix;
                           cTree = rHashes
                       in if tree_root (this_merkle this) cTree \<noteq> st_lRoot st
                          then (Inl (StarkError
                            ''Remainder values do not match Merkle root of the last column''), prf)
                          else
                            case verifyRemainder this remainder (st_maxDegreePlus1_old st)
                                   (st_rootOfUnity_old st) of
                              Inl e \<Rightarrow> (Inl e, prf)
                            | Inr _ \<Rightarrow> (Inr True, prf))))"

text \<open>
  \<open>fri\<close> of the older prover stops on the number of rows; its recursive branch is that
  of the newer one, \<open>friFold\<close> before the call and \<open>friComponent\<close> after it.
\<close>

function fri_old ::
  "('a, 'b) LowDegreeProver \<Rightarrow> 'b list \<Rightarrow> 'a list list \<Rightarrow> nat \<Rightarrow> nat \<Rightarrow> 'a list \<Rightarrow>
   'b LowDegreeProof_old \<Rightarrow> error + 'b LowDegreeProof_old" where
  "fri_old this lTree values_m maxDegreePlus1 depth domain result =
     (if rowCount values_m \<le> 64 then
        let rootOfUnity = exp_f (this_field this) (domain ! 1) (4 ^ depth);
            tValues = transposeMatrix values_m;
            remainder = joinMatrixRows tValues
        in case verifyRemainder this remainder maxDegreePlus1 rootOfUnity of
             Inl e \<Rightarrow> Inl e
           | Inr _ \<Rightarrow> Inr (result\<lparr>old_remainder := splitBuffer (this_field this) remainder\<rparr>)
      else
        case friFold this lTree values_m depth domain of
          (column, newValues, cTree) \<Rightarrow>
            (case fri_old this cTree newValues (maxDegreePlus1 div 4) (depth + 1) domain result of
               Inl e \<Rightarrow> Inl e
             | Inr result \<Rightarrow>
                 (case friComponent this lTree values_m column newValues cTree of
                    Inl e \<Rightarrow> Inl e
                  | Inr component \<Rightarrow>
                      Inr (result\<lparr>old_components :=
                             array_set (old_components result) depth component\<rparr>))))"
  by pat_completeness auto
termination
proof (relation "measure (\<lambda>(this, lTree, values_m, rest). length values_m)", goal_cases)
  case 1
  show ?case by simp
next
  case (2 this lTree values_m maxDegreePlus1 depth domain result column rest newValues cTree)
  from 2(1) have pos: "0 < length values_m"
    unfolding rowCount_def by arith
  from 2(2,3) have fold: "friFold this lTree values_m depth domain = (column, newValues, cTree)"
    by simp
  have "length column \<le> length values_m"
    using fold
    by (auto simp: friFold_def Let_def evalQuarticBatch_def interpolateQuarticBatch_def)
  moreover have "length newValues = length column div 4"
    using fold by (auto simp: friFold_def Let_def transposeVector_def)
  ultimately have "length newValues < length values_m"
    using pos by arith
  then show ?case by simp
qed

declare fri_old.simps [simp del]

text \<open>
  The older \<open>prove\<close>, in the same two parts; it computes the number of components in
  place.
\<close>

definition proveWithCount_old ::
  "('a, 'b) LowDegreeProver \<Rightarrow> 'b list \<Rightarrow> 'a list list \<Rightarrow> 'a list \<Rightarrow> nat \<Rightarrow> real \<Rightarrow>
   error + 'b LowDegreeProof_old" where
  "proveWithCount_old this lTree values_m domain maxDegreePlus1 componentCount =
     (if componentCount < 0 then Inl (RangeError ''Invalid array length'')
      else
        let result = \<lparr>old_components = replicate (nat \<lfloor>componentCount\<rfloor>) None,
                      old_remainder = []\<rparr>
        in fri_old this lTree values_m maxDegreePlus1 0 domain result)"

definition prove_old ::
  "('a, 'b) LowDegreeProver \<Rightarrow> 'b list \<Rightarrow> 'a list list \<Rightarrow> 'a list \<Rightarrow> nat \<Rightarrow>
   error + 'b LowDegreeProof_old" where
  "prove_old this lTree values_m domain maxDegreePlus1 =
     (let valueCount = colCount values_m * rowCount values_m;
          componentCount = min (real_of_int \<lceil>log 2 (real valueCount) / 2\<rceil> - 4) 0
      in proveWithCount_old this lTree values_m domain maxDegreePlus1 componentCount)"

section \<open>The outer STARK\<close>

text \<open>
  \<open>Stark\<close> and the parts of its prover and verifier that the claims are about. The
  object \<open>this\<close> holds the fields the constructor sets and, as for the low-degree
  prover, the collaborators that are not in the repository: the boundary constraints,
  the zero polynomial, the read-only registers, the constraint evaluator, the
  serializer, the index generator, the hash function and the Merkle tree, whose
  \<open>verifyBatch\<close> may itself throw here. Evaluations that a \<open>Map\<close> holds under numeric
  keys are maps from \<open>nat\<close>.
\<close>

record 'a Assertion =
  as_step :: int
  as_register :: nat
  as_value :: 'a

record StarkConfig =
  cfg_steps :: nat
  cfg_mutableRegisterCount :: nat
  cfg_constraintCount :: nat
  cfg_maxConstraintDegree :: nat
  cfg_readonlyRegisterCount :: nat

record 'a EvaluationContext =
  ctx_roundSteps :: nat
  ctx_totalSteps :: nat
  ctx_domainSize :: nat
  ctx_rootOfUnity :: 'a
  ctx_registerCount :: nat
  ctx_constantCount :: nat
  ctx_hashAlgorithm :: string

record 'a BoundaryConstraints =
  bc_count :: nat
  bc_evaluateAt :: "'a list \<Rightarrow> 'a \<Rightarrow> 'a list"

record 'b StarkProof_evaluations =
  ev_root :: 'b
  ev_values :: "'b list"
  ev_nodes :: "'b list"
  ev_depth :: nat
  ev_bpc :: nat

record 'b StarkProof_degree =
  deg_root :: 'b
  deg_lcProof :: "'b BatchMerkleProof"
  deg_ldProof :: "'b LowDegreeProof_old"

record 'b StarkProof =
  sp_evaluations :: "'b StarkProof_evaluations"
  sp_degree :: "'b StarkProof_degree"

record ('a, 'b) Stark =
  sk_field :: "('a, 'b) FiniteField"
  sk_config :: StarkConfig
  sk_extensionFactor :: nat
  sk_exeSpotCheckCount :: nat
  sk_friSpotCheckCount :: nat
  sk_hashAlgorithm :: string
  sk_newBoundaryConstraints :: "'a Assertion list \<Rightarrow> 'a EvaluationContext \<Rightarrow> 'a BoundaryConstraints"
  sk_zPolyEvaluateAt :: "'a EvaluationContext \<Rightarrow> 'a \<Rightarrow> 'a"
  sk_buildReadonlyRegisters :: "'a EvaluationContext \<Rightarrow> error + ('a \<Rightarrow> 'a) list"
  sk_getPseudorandomIndexes :: "'b \<Rightarrow> nat \<Rightarrow> nat \<Rightarrow> nat \<Rightarrow> nat list"
  sk_hash :: "'b \<Rightarrow> 'b"
  sk_parseEvaluations :: "'b \<Rightarrow> nat \<Rightarrow> 'a list \<times> 'a list \<times> 'a list"
  sk_verifyBatch :: "'b \<Rightarrow> nat list \<Rightarrow> 'b option list \<Rightarrow> 'b list \<Rightarrow> nat \<Rightarrow> error + bool"
  sk_buffersToBigInts :: "'b list \<Rightarrow> 'a list"
  sk_newLowDegreeProver :: "nat \<Rightarrow> 'a EvaluationContext \<Rightarrow> ('a, 'b) LowDegreeProver"
  sk_evaluateOne :: "'a list \<Rightarrow> 'a list option \<Rightarrow> 'a list \<Rightarrow> error + 'a list"

definition stark_getAugmentedPositions :: "('a, 'b) Stark \<Rightarrow> nat list \<Rightarrow> nat \<Rightarrow> nat list" where
  "stark_getAugmentedPositions this positions evaluationDomainSize =
     (let skip = sk_extensionFactor this
      in fold (\<lambda>position augmentedPositionSet.
                 set_add (set_add augmentedPositionSet position)
                   ((position + skip) mod evaluationDomainSize))
           positions [])"

definition createContext :: "('a, 'b) Stark \<Rightarrow> nat \<Rightarrow> 'a EvaluationContext" where
  "createContext this iterations =
     (let steps = cfg_steps (sk_config this) * iterations;
          domainSize = steps * sk_extensionFactor this;
          rootOfUnity = getRootOfUnity (sk_field this) domainSize
      in \<lparr>ctx_roundSteps = cfg_steps (sk_config this),
          ctx_totalSteps = steps,
          ctx_domainSize = domainSize,
          ctx_rootOfUnity = rootOfUnity,
          ctx_registerCount = cfg_mutableRegisterCount (sk_config this),
          ctx_constantCount = cfg_readonlyRegisterCount (sk_config this),
          ctx_hashAlgorithm = sk_hashAlgorithm this\<rparr>)"

definition getLinearCombinationDegree :: "('a, 'b) Stark \<Rightarrow> nat \<Rightarrow> nat" where
  "getLinearCombinationDegree this evaluationDomainSize =
     (let steps = evaluationDomainSize div sk_extensionFactor this;
          degree = steps * max (cfg_maxConstraintDegree (sk_config this) - 1) 1
      in degree)"


text \<open>
  Step 3 of \<open>Stark.verify\<close>: the loop over \<open>proof.evaluations.values\<close> fills three maps
  and the array of hashed evaluations. Past the end of \<open>augmentedPositions\<close> the key
  is \<open>undefined\<close>, an entry no later lookup reads.
\<close>

record ('a, 'b) decoded =
  dec_pEvaluations :: "nat \<rightharpoonup> 'a list"
  dec_bEvaluations :: "nat \<rightharpoonup> 'a list"
  dec_dEvaluations :: "nat \<rightharpoonup> 'a list"
  dec_hashedEvaluations :: "'b option list"

definition decodeStep ::
  "('a, 'b) Stark \<Rightarrow> 'b list \<Rightarrow> nat list \<Rightarrow> nat \<Rightarrow> nat \<Rightarrow> ('a, 'b) decoded \<Rightarrow> ('a, 'b) decoded" where
  "decodeStep this values_e augmentedPositions bpc i acc =
     (let mergedEvaluations = values_e ! i;
          (p, b, d) = sk_parseEvaluations this mergedEvaluations bpc;
          acc = (case js_index augmentedPositions i of
                   None \<Rightarrow> acc
                 | Some position \<Rightarrow>
                     acc\<lparr>dec_pEvaluations := (dec_pEvaluations acc)(position \<mapsto> p),
                         dec_bEvaluations := (dec_bEvaluations acc)(position \<mapsto> b),
                         dec_dEvaluations := (dec_dEvaluations acc)(position \<mapsto> d)\<rparr>)
      in acc\<lparr>dec_hashedEvaluations :=
               array_set (dec_hashedEvaluations acc) i (sk_hash this mergedEvaluations)\<rparr>)"

definition decodeEvaluations ::
  "('a, 'b) Stark \<Rightarrow> 'b list \<Rightarrow> nat list \<Rightarrow> nat \<Rightarrow> ('a, 'b) decoded" where
  "decodeEvaluations this values_e augmentedPositions bpc =
     fold (decodeStep this values_e augmentedPositions bpc) [0..<length values_e]
       \<lparr>dec_pEvaluations = Map.empty, dec_bEvaluations = Map.empty,
        dec_dEvaluations = Map.empty,
        dec_hashedEvaluations = replicate (length augmentedPositions) None\<rparr>"

text \<open>
  \<open>try { if (!verifyBatch(...)) throw new StarkError(msg) } catch (error) { if (error
  instanceof StarkError === false) throw new StarkError(msg, error) }\<close>: the error
  thrown for a failed verification is a \<open>StarkError\<close>, which the handler lets pass;
  only another kind of error leaves the block, wrapped.
\<close>

definition isStarkError :: "error \<Rightarrow> bool" where
  "isStarkError e = (case e of StarkError _ \<Rightarrow> True | _ \<Rightarrow> False)"

definition guardedVerifyBatch :: "error + bool \<Rightarrow> string \<Rightarrow> error + unit" where
  "guardedVerifyBatch r msg =
     (let thrown = (case r of Inl e \<Rightarrow> Some e
                    | Inr ok \<Rightarrow> if \<not> ok then Some (StarkError msg) else None)
      in case thrown of
           None \<Rightarrow> Inr ()
         | Some error \<Rightarrow> if isStarkError error = False then Inl (StarkError msg) else Inr ())"

text \<open>
  Step 7 of \<open>Stark.verify\<close>, one round. \<open>pEvaluations.get(step)!\<close> and its two
  siblings are \<open>undefined\<close> for a step the proof does not reveal, and the round then
  throws when it spreads them; \<open>npValues\<close> goes to the constraint evaluator as it is.
  \<open>pbValues[j] * power\<close> is the product of two \<open>bigint\<close>s, not the field's.
\<close>

definition checkPosition ::
  "('a::{one,times}, 'b) Stark \<Rightarrow> 'a EvaluationContext \<Rightarrow> 'a BoundaryConstraints \<Rightarrow>
   ('a \<Rightarrow> 'a) list \<Rightarrow> ('a, 'b) decoded \<Rightarrow> (nat \<rightharpoonup> 'a) \<Rightarrow> nat \<Rightarrow> 'a list \<Rightarrow> nat \<Rightarrow> nat \<Rightarrow>
   error + unit" where
  "checkPosition this context bPoly kRegisters dec lEvaluations lCombinationDegree
     lCoefficients evaluationDomainSize step =
     (let constraintCount = cfg_constraintCount (sk_config this);
          G2 = ctx_rootOfUnity context;
          x = exp_f (sk_field this) G2 step
      in case (dec_pEvaluations dec step, dec_bEvaluations dec step, dec_dEvaluations dec step) of
           (Some pValues, Some bValues, Some dValues) \<Rightarrow>
             (let zValue = sk_zPolyEvaluateAt this context x;
                  kValues = map (\<lambda>j. (kRegisters ! j) x) [0..<ctx_constantCount context];
                  npValues = dec_pEvaluations dec
                               ((step + sk_extensionFactor this) mod evaluationDomainSize)
              in case sk_evaluateOne this pValues npValues kValues of
                   Inl e \<Rightarrow> Inl e
                 | Inr qValues \<Rightarrow>
                     if \<exists>j \<in> set [0..<min constraintCount (length dValues)].
                          js_index qValues j \<noteq> Some (mul (sk_field this) zValue (dValues ! j))
                     then Inl (StarkError ''Transition constraint was not satisfied'')
                     else if length dValues < constraintCount
                     then Inl (TypeError ''Cannot mix BigInt and other types'')
                     else
                       let bChecks = bc_evaluateAt bPoly pValues x
                       in if \<exists>j \<in> set [0..<length bChecks].
                               Some (bChecks ! j) \<noteq> js_index bValues j
                          then Inl (StarkError ''Boundary constraint was not satisfied'')
                          else
                            let lcValues =
                                  (if lCombinationDegree > ctx_totalSteps context then
                                     let power = exp_f (sk_field this) x
                                                   (lCombinationDegree - ctx_totalSteps context);
                                         pbValues = pValues @ bValues;
                                         pbValues2 = map (\<lambda>v. v * power) pbValues
                                     in pbValues2 @ pbValues @ dValues
                                   else
                                     let power = exp_f (sk_field this) x
                                                   (ctx_totalSteps context - 1);
                                         dValues2 = map (\<lambda>v. v * power) dValues
                                     in pValues @ bValues @ dValues2);
                                lCheck = combine (sk_field this) lcValues lCoefficients
                            in if lEvaluations step \<noteq> Some lCheck
                               then Inl (StarkError ''Linear combination is inconsistent'')
                               else Inr ())
         | _ \<Rightarrow> Inl (TypeError ''undefined is not iterable''))"

fun checkPositions ::
  "('a::{one,times}, 'b) Stark \<Rightarrow> 'a EvaluationContext \<Rightarrow> 'a BoundaryConstraints \<Rightarrow>
   ('a \<Rightarrow> 'a) list \<Rightarrow> ('a, 'b) decoded \<Rightarrow> (nat \<rightharpoonup> 'a) \<Rightarrow> nat \<Rightarrow> 'a list \<Rightarrow> nat \<Rightarrow> nat list \<Rightarrow>
   error + unit" where
  "checkPositions this context bPoly kRegisters dec lEvaluations lCombinationDegree
     lCoefficients evaluationDomainSize [] = Inr ()"
| "checkPositions this context bPoly kRegisters dec lEvaluations lCombinationDegree
     lCoefficients evaluationDomainSize (step # rest) =
     (case checkPosition this context bPoly kRegisters dec lEvaluations lCombinationDegree
             lCoefficients evaluationDomainSize step of
        Inl e \<Rightarrow> Inl e
      | Inr _ \<Rightarrow> checkPositions this context bPoly kRegisters dec lEvaluations
                  lCombinationDegree lCoefficients evaluationDomainSize rest)"

text \<open>
  \<open>Stark.verify\<close>. It hands the low-degree proof to the older prover's \<open>verify\<close>, and
  rethrows whatever that throws as a \<open>StarkError\<close>.
\<close>

definition stark_verify ::
  "('a::{one,times}, 'b) Stark \<Rightarrow> 'a Assertion list \<Rightarrow> 'b StarkProof \<Rightarrow> nat \<Rightarrow>
   (error + bool) option" where
  "stark_verify this assertions prf iterations =
     (let registerCount = cfg_mutableRegisterCount (sk_config this);
          constraintCount = cfg_constraintCount (sk_config this);
          eRoot = ev_root (sp_evaluations prf)
      in if length assertions < 1
         then Some (Inl (TypeError ''At least one assertion must be provided''))
         else
           let context = createContext this iterations;
               evaluationDomainSize = ctx_totalSteps context * sk_extensionFactor this;
               G2 = ctx_rootOfUnity context;
               bPoly = sk_newBoundaryConstraints this assertions context
           in case sk_buildReadonlyRegisters this context of
                Inl e \<Rightarrow> Some (Inl e)
              | Inr kRegisters \<Rightarrow>
           let spotCheckCount = min (sk_exeSpotCheckCount this)
                 (evaluationDomainSize - evaluationDomainSize div sk_extensionFactor this);
               positions = sk_getPseudorandomIndexes this eRoot spotCheckCount
                             evaluationDomainSize (sk_extensionFactor this);
               augmentedPositions =
                 stark_getAugmentedPositions this positions evaluationDomainSize;
               dec = decodeEvaluations this (ev_values (sp_evaluations prf)) augmentedPositions
                       (bc_count bPoly)
           in case guardedVerifyBatch
                     (sk_verifyBatch this eRoot augmentedPositions (dec_hashedEvaluations dec)
                        (ev_nodes (sp_evaluations prf)) (ev_depth (sp_evaluations prf)))
                     ''Verification of evaluation Merkle proof failed'' of
                Inl e \<Rightarrow> Some (Inl e)
              | Inr _ \<Rightarrow>
           let lcProof = deg_lcProof (sp_degree prf)
           in case guardedVerifyBatch
                     (sk_verifyBatch this (deg_root (sp_degree prf)) positions
                        (map Some (proof_values lcProof)) (proof_nodes lcProof)
                        (proof_depth lcProof))
                     ''Verification of linear combination Merkle proof failed'' of
                Inl e \<Rightarrow> Some (Inl e)
              | Inr _ \<Rightarrow>
           let lEvaluationValues = sk_buffersToBigInts this (proof_values lcProof);
               lEvaluations =
                 fold (\<lambda>i m. case js_index positions i of
                                None \<Rightarrow> m
                              | Some position \<Rightarrow> m(position \<mapsto> lEvaluationValues ! i))
                   [0..<length (proof_values lcProof)] Map.empty;
               lCombinationDegree = getLinearCombinationDegree this evaluationDomainSize;
               ldProver = sk_newLowDegreeProver this (sk_friSpotCheckCount this) context
           in case verify_old ldProver (deg_root (sp_degree prf)) lCombinationDegree G2
                     (deg_ldProof (sp_degree prf)) of
                None \<Rightarrow> None
              | Some (Inl error, _) \<Rightarrow>
                  Some (Inl (StarkError ''Verification of low degree failed''))
              | Some (Inr _, _) \<Rightarrow>
           let lPolyCount = constraintCount + 2 * (registerCount + bc_count bPoly);
               lCoefficients = prngMany (sk_field this) eRoot lPolyCount
           in case checkPositions this context bPoly kRegisters dec lEvaluations
                     lCombinationDegree lCoefficients evaluationDomainSize positions of
                Inl e \<Rightarrow> Some (Inl e)
              | Inr _ \<Rightarrow> Some (Inr True))"


section \<open>Security options\<close>



definition MAX_DOMAIN_SIZE :: nat where "MAX_DOMAIN_SIZE = 2 ^ 32"





definition number_or :: "real option \<Rightarrow> real \<Rightarrow> real" where
  "number_or v d = (case v of None \<Rightarrow> d | Some x \<Rightarrow> if x = 0 then d else x)"

definition string_or :: "string option \<Rightarrow> string \<Rightarrow> string" where
  "string_or v d = (case v of None \<Rightarrow> d | Some x \<Rightarrow> if x = [] then d else x)"





section \<open>A small prime field and its collaborators, for the examples\<close>

text \<open>
  The examples below run the definitions on a concrete field package: the integers
  modulo a prime \<open>p\<close>, with Newton interpolation; polynomials are lists of
  coefficients, lowest first. A buffer is the list of the field elements it encodes, one
  element to a cell, so \<open>elementSize = 1\<close> and \<open>readBigInt\<close> reads the cell at the
  offset. Powers are computed by squaring and power series by repeated multiplication. The hash is a polynomial checksum, the tree commits to the
  concatenation of its leaves and reveals all of them in a proof, and the index
  generator derives two positions from the first byte of the root.
\<close>

fun evalPoly_mod :: "int \<Rightarrow> int list \<Rightarrow> int \<Rightarrow> int" where
  "evalPoly_mod p [] x = 0"
| "evalPoly_mod p (c # cs) x = (c + x * evalPoly_mod p cs x) mod p"

fun polyAdd_mod :: "int \<Rightarrow> int list \<Rightarrow> int list \<Rightarrow> int list" where
  "polyAdd_mod p [] ys = ys"
| "polyAdd_mod p xs [] = xs"
| "polyAdd_mod p (x # xs) (y # ys) = ((x + y) mod p) # polyAdd_mod p xs ys"

definition polyScale_mod :: "int \<Rightarrow> int \<Rightarrow> int list \<Rightarrow> int list" where
  "polyScale_mod p c xs = map (\<lambda>x. (c * x) mod p) xs"

definition zeroPoly_mod :: "int \<Rightarrow> int list \<Rightarrow> int list" where
  "zeroPoly_mod p xs =
     fold (\<lambda>a acc. polyAdd_mod p (polyScale_mod p (- a) acc) (0 # acc)) xs [1]"

fun exp_mod :: "int \<Rightarrow> int \<Rightarrow> nat \<Rightarrow> int" where
  "exp_mod p a n =
     (if n = 0 then 1 mod p
      else let h = exp_mod p ((a * a) mod p) (n div 2)
           in if even n then h else (a * h) mod p)"

declare exp_mod.simps [simp del]

definition inverse_mod :: "int \<Rightarrow> int \<Rightarrow> int" where
  "inverse_mod p a = exp_mod p a (nat (p - 2))"

fun interpolate_mod :: "int \<Rightarrow> int list \<Rightarrow> int list \<Rightarrow> int list" where
  "interpolate_mod p (x # xs) (y # ys) =
     (let q = interpolate_mod p xs ys;
          m = zeroPoly_mod p xs;
          c = ((y - evalPoly_mod p q x) * inverse_mod p (evalPoly_mod p m x)) mod p
      in polyAdd_mod p q (polyScale_mod p c m))"
| "interpolate_mod p xs ys = []"

primrec powerSeries_mod :: "int \<Rightarrow> int \<Rightarrow> int \<Rightarrow> nat \<Rightarrow> int list" where
  "powerSeries_mod p seed x 0 = []"
| "powerSeries_mod p seed x (Suc n) = x # powerSeries_mod p seed ((x * seed) mod p) n"

definition checksum :: "int list \<Rightarrow> int list" where
  "checksum b = [fold (\<lambda>x h. (h * 31 + x + 1) mod 251) b 7]"

definition primeField :: "int \<Rightarrow> int \<Rightarrow> (int, int list) FiniteField" where
  "primeField p generator =
     \<lparr>field_elementSize = 1,
      mul = (\<lambda>a b. (a * b) mod p),
      exp_f = exp_mod p,
      prng = (\<lambda>seed. (sum_list seed * 7 + 3) mod p),
      interpolate = interpolate_mod p,
      evalPolyAt = evalPoly_mod p,
      getPowerSeries = (\<lambda>seed n. powerSeries_mod p seed (1 mod p) n),
      toBuffer = (\<lambda>v. v),
      getRootOfUnity = (\<lambda>order. exp_mod p generator (nat (p - 1) div order)),
      prngMany = (\<lambda>seed n. map (\<lambda>i. (sum_list seed + int i) mod p) [0..<n]),
      combine = (\<lambda>vs cs. sum_list (map (\<lambda>(v, c). v * c) (zip vs cs)) mod p)\<rparr>"

definition exampleHash :: "int list Hash" where
  "exampleHash = \<lparr>digest = checksum\<rparr>"

definition exampleMerkle :: "int list MerkleTree" where
  "exampleMerkle =
     \<lparr>tree_root = (\<lambda>leaves. checksum (concat leaves)),
      proveBatch = (\<lambda>leaves positions.
        \<lparr>proof_values = map (\<lambda>position. leaves ! position) positions,
         proof_nodes = leaves, proof_depth = 0\<rparr>),
      verifyBatch = (\<lambda>root positions prf.
        checksum (concat (proof_nodes prf)) = root
        \<and> list_all (\<lambda>position. position < length (proof_nodes prf)) positions
        \<and> proof_values prf = map (\<lambda>position. proof_nodes prf ! position) positions)\<rparr>"

definition exampleGenerator :: "nat \<Rightarrow> int list QueryIndexGenerator" where
  "exampleGenerator extensionFactor =
     \<lparr>gen_extensionFactor = extensionFactor,
      getExeIndexes = (\<lambda>root n. if n = 0 then []
                                 else map (\<lambda>i. (nat (hd root) + 3 * i + 1) mod n) [0..<2]),
      getFriIndexes = (\<lambda>root n. if n = 0 then []
                                 else map (\<lambda>i. (nat (hd root) + 5 * i) mod n) [0..<2])\<rparr>"

text \<open>
  The prover object over the integers modulo 17, where 3 has order 16.
\<close>

definition prover17 :: "nat \<Rightarrow> (int, int list) LowDegreeProver" where
  "prover17 extensionFactor =
     \<lparr>this_field = primeField 17 3,
      this_polyRowSize = 4,
      this_rootOfUnity = 3,
      this_hash = exampleHash,
      this_idxGenerator = exampleGenerator extensionFactor,
      this_merkle = exampleMerkle,
      this_readBigInt = (\<lambda>buffer offset elementSize. buffer ! offset)\<rparr>"

text \<open>
  The polynomial \<open>3 + 5 * x + 2 * x ^ 5\<close> on the 16 powers of 3 modulo 17, and a proof
  for it with one component: the root of the evaluations is \<open>[80]\<close> and
  \<open>specialX = 2\<close>, the fold is the column \<open>[0, 14, 9, 12]\<close>, the values of
  \<open>13 + 4 * y\<close> on the powers of 13, and the queried positions are 3 and 0.
\<close>

definition domain16 :: "int list" where
  "domain16 = [1, 3, 9, 10, 13, 5, 15, 11, 16, 14, 8, 7, 4, 12, 2, 6]"

definition evaluations16 :: "int list" where
  "evaluations16 = [10, 11, 13, 14, 9, 5, 14, 10, 13, 12, 10, 9, 14, 1, 9, 13]"

definition component16 :: "int list FriComponent" where
  "component16 =
     \<lparr>comp_columnRoot = [211],
      comp_columnProof = \<lparr>proof_values = [[0, 14, 9, 12]], proof_nodes = [[244]],
                            proof_depth = 0\<rparr>,
      comp_polyProof = \<lparr>proof_values = [[14, 10, 9, 13], [10, 9, 13, 14]],
                          proof_nodes = [[56], [106], [11], [78]], proof_depth = 0\<rparr>\<rparr>"

definition proof16 :: "(int, int list) LowDegreeProof" where
  "proof16 =
     \<lparr>ldp_lcRoot = [80],
      ldp_lcProof = \<lparr>proof_values = [[11, 5, 12, 1], [10, 9, 13, 14]],
                       proof_nodes = [[56], [106], [11], [78]], proof_depth = 0\<rparr>,
      ldp_components = [Some component16],
      ldp_remainder = [0, 14, 9, 12]\<rparr>"

definition proof16_old :: "int list LowDegreeProof_old" where
  "proof16_old =
     \<lparr>old_components = [Some component16], old_remainder = [[0], [14], [9], [12]]\<rparr>"

text \<open>
  The prover object over the integers modulo 257, where 9 has order 128, the domain of
  the powers of 9 and the evaluations of \<open>3 + 5 * x\<close> on it.
\<close>

definition prover257 :: "nat \<Rightarrow> (int, int list) LowDegreeProver" where
  "prover257 extensionFactor =
     \<lparr>this_field = primeField 257 3,
      this_polyRowSize = 4,
      this_rootOfUnity = 9,
      this_hash = exampleHash,
      this_idxGenerator = exampleGenerator extensionFactor,
      this_merkle = exampleMerkle,
      this_readBigInt = (\<lambda>buffer offset elementSize. buffer ! offset)\<rparr>"

definition domain128 :: "int list" where
  "domain128 = powerSeries_mod 257 9 1 128"

definition line128 :: "int list" where
  "line128 = map (\<lambda>x. (3 + 5 * x) mod 257) domain128"

text \<open>
  An outer STARK over the same field: 4 steps, extension factor 4, hence a domain of
  16 points; two spot checks. Its index generator answers positions \<open>k * ef + 1\<close>,
  never a multiple of the extension factor; a merged evaluation holds one value of a
  register, one of a boundary constraint and one of a transition constraint.
\<close>

definition exampleStark :: "(int, int list) Stark" where
  "exampleStark =
     \<lparr>sk_field = primeField 17 3,
      sk_config = \<lparr>cfg_steps = 4, cfg_mutableRegisterCount = 1, cfg_constraintCount = 1,
                   cfg_maxConstraintDegree = 2, cfg_readonlyRegisterCount = 0\<rparr>,
      sk_extensionFactor = 4,
      sk_exeSpotCheckCount = 2,
      sk_friSpotCheckCount = 2,
      sk_hashAlgorithm = ''sha256'',
      sk_newBoundaryConstraints = (\<lambda>assertions context.
        \<lparr>bc_count = 1, bc_evaluateAt = (\<lambda>pValues x. [0])\<rparr>),
      sk_zPolyEvaluateAt = (\<lambda>context x. 1),
      sk_buildReadonlyRegisters = (\<lambda>context. Inr []),
      sk_getPseudorandomIndexes = (\<lambda>root n domainSize ef.
        map (\<lambda>i. 1 + ((nat (hd root) + 5 * i) mod (domainSize div ef)) * ef) [0..<n]),
      sk_hash = checksum,
      sk_parseEvaluations = (\<lambda>buffer bpc. ([buffer ! 0], [buffer ! 1], [buffer ! 2])),
      sk_verifyBatch = (\<lambda>root positions hashes nodes depth. Inr True),
      sk_buffersToBigInts = map hd,
      sk_newLowDegreeProver = (\<lambda>friSpotCheckCount context. prover17 4),
      sk_evaluateOne = (\<lambda>pValues npValues kValues. Inr [0])\<rparr>"

section \<open>The claims' words\<close>




text \<open>
  The number of folding layers that the termination rule of \<open>fri\<close> gives a problem of
  \<open>N\<close> elements: each layer keeps a quarter of the elements, until at most
  \<open>MAX_REMAINDER_LENGTH\<close> remain.
\<close>

function friLayers :: "nat \<Rightarrow> nat" where
  "friLayers N = (if N \<le> 256 then 0 else 1 + friLayers (N div 4))"
  by pat_completeness auto
termination
  by (relation "measure (\<lambda>N. N)") auto

declare friLayers.simps [simp del]

text \<open>A matrix of the core: every row has four columns.\<close>

definition fourColumns :: "'a list list \<Rightarrow> bool" where
  "fourColumns m = (\<forall>row \<in> set m. length row = 4)"



text \<open>
  What the claims suppose of the packages that are not in the repository. The field:
  the powers of the generator \<open>g\<close> multiply and compose as powers do, and the domain
  holds them in order. The codec: \<open>readBigInt\<close> finds element \<open>j\<close> of a row of four at the
  offset \<open>j * elementSize\<close> of the row's buffer. The index generator: the positions it
  answers for a column of length \<open>n\<close> are below \<open>n\<close>. The Merkle tree: the proof of a
  batch of positions of a tree, holding the leaves at these positions, verifies against
  the root of the tree.
\<close>

definition powersLaw :: "('a::one, 'b) FiniteField \<Rightarrow> 'a \<Rightarrow> bool" where
  "powersLaw F g =
     ((\<forall>a b. mul F (exp_f F g a) (exp_f F g b) = exp_f F g (a + b))
      \<and> (\<forall>a b. exp_f F (exp_f F g a) b = exp_f F g (a * b))
      \<and> exp_f F g 0 = 1 \<and> exp_f F g 1 = g)"

definition powersDomain :: "('a, 'b) FiniteField \<Rightarrow> 'a \<Rightarrow> 'a list \<Rightarrow> bool" where
  "powersDomain F g domain = (\<forall>i < length domain. domain ! i = exp_f F g i)"

definition codecLaw :: "('a, 'b) LowDegreeProver \<Rightarrow> bool" where
  "codecLaw this =
     (\<forall>row j. length row = 4 \<longrightarrow> j < 4 \<longrightarrow>
        this_readBigInt this (toBuffer (this_field this) row)
          (j * field_elementSize (this_field this)) (field_elementSize (this_field this))
        = row ! j)"

definition indexRange :: "'b QueryIndexGenerator \<Rightarrow> bool" where
  "indexRange G = (\<forall>root n. \<forall>p \<in> set (getFriIndexes G root n). p < n)"

definition merkleLaw :: "'b MerkleTree \<Rightarrow> bool" where
  "merkleLaw M =
     (\<forall>leaves positions. (\<forall>p \<in> set positions. p < length leaves) \<longrightarrow>
        verifyBatch M (tree_root M leaves) positions
          ((proveBatch M leaves positions)\<lparr>proof_values := map ((!) leaves) positions\<rparr>))"
chapter \<open>Properties\<close>

section \<open>Sets in insertion order\<close>

lemma set_set_add: "set (set_add s x) = insert x (set s)"
  by (auto simp: set_add_def)

lemma remdups_snoc:
  "remdups (ys @ [x]) = filter (\<lambda>y. y \<noteq> x) (remdups ys) @ [x]"
  by (induction ys) auto

lemma first_occurrences_Cons:
  "first_occurrences (x # xs) = x # filter (\<lambda>y. y \<noteq> x) (first_occurrences xs)"
  by (simp add: first_occurrences_def remdups_snoc rev_filter)

lemma fold_set_add_acc:
  "fold (\<lambda>x s. set_add s (f x)) xs acc =
   acc @ filter (\<lambda>y. y \<notin> set acc) (first_occurrences (map f xs))"
proof (induction xs arbitrary: acc)
  case Nil
  then show ?case by (simp add: first_occurrences_def)
next
  case (Cons x xs)
  show ?case
  proof (cases "f x \<in> set acc")
    case True
    then have "set_add acc (f x) = acc" by (simp add: set_add_def)
    moreover have "filter (\<lambda>y. y \<noteq> f x \<and> y \<notin> set acc) (first_occurrences (map f xs))
        = filter (\<lambda>y. y \<notin> set acc) (first_occurrences (map f xs))"
      using True by (intro filter_cong) auto
    ultimately show ?thesis
      using True Cons.IH [of acc] by (simp add: first_occurrences_Cons)
  next
    case False
    then have "set_add acc (f x) = acc @ [f x]" by (simp add: set_add_def)
    moreover have "filter (\<lambda>y. y \<noteq> f x \<and> y \<notin> set acc) (first_occurrences (map f xs))
        = filter (\<lambda>y. y \<notin> set (acc @ [f x])) (first_occurrences (map f xs))"
      by (intro filter_cong) auto
    ultimately show ?thesis
      using False Cons.IH [of "acc @ [f x]"]
      by (simp add: first_occurrences_Cons)
  qed
qed

lemma fold_set_add_first_occurrences:
  "fold (\<lambda>x s. set_add s (f x)) xs [] = first_occurrences (map f xs)"
  by (simp add: fold_set_add_acc)


lemma set_first_occurrences: "set (first_occurrences xs) = set xs"
  by (simp add: first_occurrences_def)

lemma indexOf_Some:
  "x \<in> set xs \<Longrightarrow> \<exists>i. indexOf xs x = Some i \<and> i < length xs \<and> xs ! i = x"
  by (induction xs) auto

lemma quarter_mod:
  assumes "4 dvd (c::nat)"
  shows "(4 * p) mod c = 4 * (p mod (c div 4))"
proof -
  from assms obtain r where c: "c = 4 * r" by (auto elim: dvdE)
  show ?thesis unfolding c by simp
qed

lemma quarter_div:
  assumes "4 dvd (c::nat)"
  shows "(4 * p) div c = p div (c div 4)"
proof -
  from assms obtain r where c: "c = 4 * r" by (auto elim: dvdE)
  show ?thesis unfolding c by simp
qed

lemma floor_mod_quarter_dvd:
  "4 dvd c \<Longrightarrow> floor_mod_quarter p c = p mod (c div 4)"
  by (simp add: floor_mod_quarter_def quarter_mod)

lemma getAugmentedPositions_eq:
  "4 dvd c \<Longrightarrow>
   getAugmentedPositions positions c = first_occurrences (map (\<lambda>p. p mod (c div 4)) positions)"
  by (simp add: getAugmentedPositions_def fold_set_add_first_occurrences floor_mod_quarter_dvd)

section \<open>Parsing what the prover wrote\<close>

lemma parseColumnValues_loop_map:
  assumes "\<forall>p \<in> set ps. parseColumnValue this buffers aug c p = Inr (f p)"
  shows "parseColumnValues_loop this buffers aug c ps acc = Inr (acc @ map f ps)"
  using assms by (induction ps arbitrary: acc) simp_all

lemma parseColumnValue_dvd:
  assumes "4 dvd c" "0 < c" "indexOf aug (p mod (c div 4)) = Some i" "i < length buffers"
  shows "parseColumnValue this buffers aug c p =
         Inr (this_readBigInt this (buffers ! i)
                (p div (c div 4) * field_elementSize (this_field this))
                (field_elementSize (this_field this)))"
  using assms by (simp add: parseColumnValue_def quarter_mod quarter_div Let_def)


section \<open>The outcomes of the verifiers\<close>

lemma loop_Some:
  "((\<lambda>x. m x x) ^^ k) r = 1 \<Longrightarrow> \<exists>j\<le>k. rootOfUnityDegree_loop m result r = Some (result * 2 ^ j)"
proof (induction k arbitrary: r result)
  case 0
  then have "r = 1" by simp
  then have "rootOfUnityDegree_loop m result r = Some (result * 2 ^ 0)"
    by (subst rootOfUnityDegree_loop.simps) simp
  then show ?case by blast
next
  case (Suc k)
  show ?case
  proof (cases "r = 1")
    case True
    then have "rootOfUnityDegree_loop m result r = Some (result * 2 ^ 0)"
      by (subst rootOfUnityDegree_loop.simps) simp
    then show ?thesis by blast
  next
    case False
    from Suc.prems have "((\<lambda>x. m x x) ^^ k) (m r r) = 1"
      by (simp only: funpow_Suc_right o_apply)
    from Suc.IH [OF this, of "result * 2"]
    obtain j where j: "j \<le> k"
      and l: "rootOfUnityDegree_loop m (result * 2) (m r r) = Some (result * 2 * 2 ^ j)"
      by blast
    from False l have "rootOfUnityDegree_loop m result r = Some (result * 2 ^ Suc j)"
      by (subst rootOfUnityDegree_loop.simps) (simp add: mult.assoc)
    with j show ?thesis by (intro exI [of _ "Suc j"]) simp
  qed
qed

lemma loop_returns:
  assumes "rootOfUnityDegree_loop m result r = Some y"
  shows "\<exists>k. ((\<lambda>x. m x x) ^^ k) r = 1"
proof (rule rootOfUnityDegree_loop.raw_induct
         [where P = "\<lambda>m result r y. \<exists>k. ((\<lambda>x. m x x) ^^ k) r = 1", OF _ assms])
  fix f :: "('a \<Rightarrow> 'a \<Rightarrow> 'a) \<Rightarrow> nat \<Rightarrow> 'a \<Rightarrow> nat option" and m result r y
  assume IH: "\<And>m result r y. f m result r = Some y \<Longrightarrow> \<exists>k. ((\<lambda>x. m x x) ^^ k) r = 1"
    and body: "(if r \<noteq> 1 then f m (result * 2) (m r r) else Some result) = Some y"
  show "\<exists>k. ((\<lambda>x. m x x) ^^ k) r = 1"
  proof (cases "r = 1")
    case True
    then have "((\<lambda>x. m x x) ^^ 0) r = 1" by simp
    then show ?thesis by blast
  next
    case False
    with body have "f m (result * 2) (m r r) = Some y" by simp
    from IH [OF this] obtain k where "((\<lambda>x. m x x) ^^ k) (m r r) = 1" by blast
    then have "((\<lambda>x. m x x) ^^ Suc k) r = 1"
      by (simp only: funpow_Suc_right o_apply)
    then show ?thesis by blast
  qed
qed

lemma getRootOfUnityDegree_None:
  "getRootOfUnityDegree r F = None \<longleftrightarrow> (\<forall>k. ((\<lambda>x. mul F x x) ^^ k) r \<noteq> 1)"
proof
  assume n: "getRootOfUnityDegree r F = None"
  show "\<forall>k. ((\<lambda>x. mul F x x) ^^ k) r \<noteq> 1"
  proof (intro allI notI)
    fix k assume "((\<lambda>x. mul F x x) ^^ k) r = 1"
    from loop_Some [where m = "mul F" and result = 1 and r = r and k = k, OF this] n show False
      by (auto simp: getRootOfUnityDegree_def)
  qed
next
  assume a: "\<forall>k. ((\<lambda>x. mul F x x) ^^ k) r \<noteq> 1"
  show "getRootOfUnityDegree r F = None"
  proof (cases "getRootOfUnityDegree r F")
    case None
    then show ?thesis .
  next
    case (Some y)
    then have "rootOfUnityDegree_loop (mul F) 1 r = Some y"
      by (simp add: getRootOfUnityDegree_def)
    from loop_returns [where m = "mul F", OF this] a show ?thesis by blast
  qed
qed

lemma verify_not_False: "verify this prf lcValues exeQueryPositions d \<noteq> Some (Inr False)"
  by (simp add: verify_def Let_def split: option.splits sum.splits)

lemma verify_None:
  "verify this prf lcValues exeQueryPositions d = None
   \<longleftrightarrow> getRootOfUnityDegree (this_rootOfUnity this) (this_field this) = None"
  by (simp add: verify_def Let_def split: option.splits)

lemma verify_old_not_False: "verify_old this lRoot d r prf \<noteq> Some (Inr False, prf')"
  by (simp add: verify_old_def Let_def split: option.splits sum.splits prod.splits)

lemma verify_old_None:
  "verify_old this lRoot d r prf = None \<longleftrightarrow> getRootOfUnityDegree r (this_field this) = None"
  by (simp add: verify_old_def Let_def split: option.splits)

lemma stark_verify_not_False: "stark_verify this assertions prf iterations \<noteq> Some (Inr False)"
  by (simp add: stark_verify_def Let_def split: option.splits sum.splits prod.splits)

lemma stark_verify_None:
  assumes "stark_verify this assertions prf iterations = None"
  shows "getRootOfUnityDegree (ctx_rootOfUnity (createContext this iterations))
     (this_field (sk_newLowDegreeProver this (sk_friSpotCheckCount this)
                    (createContext this iterations))) = None"
proof (rule ccontr)
  assume "getRootOfUnityDegree (ctx_rootOfUnity (createContext this iterations))
     (this_field (sk_newLowDegreeProver this (sk_friSpotCheckCount this)
                    (createContext this iterations))) \<noteq> None"
  then have v: "verify_old (sk_newLowDegreeProver this (sk_friSpotCheckCount this)
                    (createContext this iterations)) lRoot d
               (ctx_rootOfUnity (createContext this iterations)) p \<noteq> None" for lRoot d p
    by (simp only: verify_old_None) simp
  have "stark_verify this assertions prf iterations \<noteq> None"
    by (simp add: stark_verify_def Let_def v split: sum.splits option.splits prod.splits)
  with assms show False by simp
qed

section \<open>C1: \<open>verify\<close> returns true or throws\<close>

text \<open>
  C1. No call of \<open>LowDegreeProver.verify\<close>, of either version, or of \<open>Stark.verify\<close>
  returns \<open>false\<close>. The two versions of \<open>LowDegreeProver.verify\<close> return \<open>true\<close> or
  throw exactly when repeated squaring takes the root of unity to 1, and otherwise
  never return, the loop that computes the degree of the root being endless;
  \<open>Stark.verify\<close> returns \<open>true\<close> or throws when repeated squaring takes the root of
  unity of its context to 1.
\<close>

theorem verify_true_or_throws:
  "verify this prf lcValues exeQueryPositions d \<noteq> Some (Inr False)
   \<and> (\<forall>prf'. verify_old this lRoot d r prf_old \<noteq> Some (Inr False, prf'))
   \<and> stark_verify stark assertions prf_stark iterations \<noteq> Some (Inr False)
   \<and> (verify this prf lcValues exeQueryPositions d = None
        \<longleftrightarrow> (\<forall>k. ((\<lambda>x. mul (this_field this) x x) ^^ k) (this_rootOfUnity this) \<noteq> 1))
   \<and> (verify_old this lRoot d r prf_old = None
        \<longleftrightarrow> (\<forall>k. ((\<lambda>x. mul (this_field this) x x) ^^ k) r \<noteq> 1))
   \<and> (stark_verify stark assertions prf_stark iterations = None \<longrightarrow>
        (\<forall>k. ((\<lambda>x. mul (this_field (sk_newLowDegreeProver stark (sk_friSpotCheckCount stark)
                                        (createContext stark iterations))) x x) ^^ k)
               (ctx_rootOfUnity (createContext stark iterations)) \<noteq> 1))"
proof -
  have "stark_verify stark assertions prf_stark iterations = None \<longrightarrow>
        (\<forall>k. ((\<lambda>x. mul (this_field (sk_newLowDegreeProver stark (sk_friSpotCheckCount stark)
                                        (createContext stark iterations))) x x) ^^ k)
               (ctx_rootOfUnity (createContext stark iterations)) \<noteq> 1)"
    using stark_verify_None [of stark assertions prf_stark iterations]
    by (simp only: getRootOfUnityDegree_None) blast
  then show ?thesis
    by (simp only: verify_not_False verify_old_not_False stark_verify_not_False
          verify_None verify_old_None getRootOfUnityDegree_None) simp
qed

text \<open>
  Modulo 17 four squarings take 3 to 1: the verifiers return on the proof for
  \<open>3 + 5 * x + 2 * x ^ 5\<close>, the newer one \<open>true\<close>, and \<open>Stark.verify\<close> returns or throws
  on a proof that holds it.
\<close>

lemma example_verify:
  "verify (prover17 0) proof16 [11, 9] [1, 4] 8 = Some (Inr True)"
  by code_simp

lemma example_squarings:
  "((\<lambda>x. mul (primeField 17 3) x x) ^^ 4) 3 = 1"
  by (simp add: primeField_def eval_nat_numeral)

theorem verify_true_or_throws_witness:
  "((\<lambda>x. mul (this_field (sk_newLowDegreeProver exampleStark (sk_friSpotCheckCount exampleStark)
                            (createContext exampleStark 1))) x x) ^^ 4)
     (ctx_rootOfUnity (createContext exampleStark 1)) = 1
   \<and> stark_verify exampleStark [\<lparr>as_step = 0, as_register = 0, as_value = 1\<rparr>]
        \<lparr>sp_evaluations = \<lparr>ev_root = [1], ev_values = [], ev_nodes = [], ev_depth = 0,
                            ev_bpc = 1\<rparr>,
         sp_degree = \<lparr>deg_root = [80],
                       deg_lcProof = \<lparr>proof_values = [], proof_nodes = [], proof_depth = 0\<rparr>,
                       deg_ldProof = proof16_old\<rparr>\<rparr> 1 \<noteq> None
   \<and> verify (prover17 0) proof16 [11, 9] [1, 4] 8 = Some (Inr True)
   \<and> verify_old (prover17 0) [80] 8 3 proof16_old \<noteq> None"
proof -
  have root: "ctx_rootOfUnity (createContext exampleStark 1) = 3"
    by code_simp
  have field: "this_field (sk_newLowDegreeProver exampleStark (sk_friSpotCheckCount exampleStark)
                            (createContext exampleStark 1)) = primeField 17 3"
    by (simp add: exampleStark_def prover17_def)
  have sq: "((\<lambda>x. mul (this_field (sk_newLowDegreeProver exampleStark
                 (sk_friSpotCheckCount exampleStark) (createContext exampleStark 1))) x x) ^^ 4)
     (ctx_rootOfUnity (createContext exampleStark 1)) = 1"
    unfolding root field by (rule example_squarings)
  have sq': "((\<lambda>x. mul (this_field (prover17 0)) x x) ^^ 4) 3 = 1"
    using example_squarings by (simp add: prover17_def)
  note inst = verify_true_or_throws
         [where stark = exampleStark and iterations = 1 and this = "prover17 0" and r = 3]
  from inst sq have "stark_verify exampleStark assertions prf_stark 1 \<noteq> None"
    for assertions prf_stark
    by blast
  moreover from inst sq' have "verify_old (prover17 0) lRoot d 3 prf_old \<noteq> None"
    for lRoot d prf_old
    by blast
  ultimately show ?thesis
    using sq example_verify by blast
qed

text \<open>
  Squaring never takes 0 to 1: called with the root of unity 0, the older \<open>verify\<close>
  neither returns nor throws.
\<close>

lemma example_squarings_0:
  "((\<lambda>x. mul (primeField 17 3) x x) ^^ k) 0 = 0"
  by (induction k) (simp_all add: primeField_def)

theorem verify_old_endless:
  "verify_old (prover17 0) [80] 8 0 proof16_old = None"
proof -
  have "\<forall>k. ((\<lambda>x. mul (this_field (prover17 0)) x x) ^^ k) 0 \<noteq> 1"
    using example_squarings_0 by (simp add: prover17_def)
  moreover have "verify_old (prover17 0) [80] 8 0 proof16_old = None
        \<longleftrightarrow> (\<forall>k. ((\<lambda>x. mul (this_field (prover17 0)) x x) ^^ k) 0 \<noteq> 1)"
    by (simp only: verify_old_None getRootOfUnityDegree_None)
  ultimately show ?thesis
    by blast
qed

section \<open>The shape of the folding recursion\<close>

lemma colCount_fourColumns: "fourColumns m \<Longrightarrow> m \<noteq> [] \<Longrightarrow> colCount m = 4"
  by (cases m) (simp_all add: colCount_def fourColumns_def)

lemma count_fourColumns: "fourColumns m \<Longrightarrow> rowCount m * colCount m = 4 * length m"
  by (cases m) (simp_all add: colCount_def fourColumns_def rowCount_def)

lemma length_join_transpose:
  "fourColumns m \<Longrightarrow> length (joinMatrixRows (transposeMatrix m)) = 4 * length m"
proof (cases "m = []")
  case True
  then show ?thesis by (simp add: joinMatrixRows_def transposeMatrix_def colCount_def)
next
  case False
  assume "fourColumns m"
  then have "colCount m = 4" using False by (rule colCount_fourColumns)
  then show ?thesis
    by (simp add: joinMatrixRows_def transposeMatrix_def length_concat comp_def
          sum_list_triv)
qed

lemma fourColumns_transposeVector: "fourColumns (transposeVector v 4 step)"
  by (simp add: fourColumns_def transposeVector_def Let_def)

lemma length_transposeVector: "length (transposeVector v columns step) = length v div (columns * step)"
  by (simp add: transposeVector_def Let_def)

lemma friFold_shape:
  assumes "length polyValues * (4 * 4 ^ depth) \<le> length domain"
    and "friFold this pTree polyValues depth domain = (column, newPolyValues, cTree)"
  shows "length column = length polyValues"
    and "length newPolyValues = length polyValues div 4"
    and "fourColumns newPolyValues"
    and "length cTree = length newPolyValues"
proof -
  have "length polyValues \<le> length domain div (4 * 4 ^ depth)"
    using assms(1) by (simp add: less_eq_div_iff_mult_less_eq)
  then show c: "length column = length polyValues"
    using assms(2)
    by (auto simp: friFold_def Let_def evalQuarticBatch_def interpolateQuarticBatch_def
          length_transposeVector)
  from assms(2) have n: "newPolyValues = transposeVector column 4 1"
    by (auto simp: friFold_def Let_def)
  show "length newPolyValues = length polyValues div 4"
    by (simp add: n length_transposeVector c)
  show "fourColumns newPolyValues"
    by (simp add: n fourColumns_transposeVector)
  from assms(2) show "length cTree = length newPolyValues"
    by (auto simp: friFold_def Let_def digestValues_def)
qed

lemma length_array_set: "length (array_set xs i v) = max (length xs) (Suc i)"
  by (simp add: array_set_def)

lemma friLayers_small: "N \<le> 256 \<Longrightarrow> friLayers N = 0"
  by (subst friLayers.simps) simp

lemma friLayers_big: "256 < N \<Longrightarrow> friLayers N = Suc (friLayers (N div 4))"
  by (subst friLayers.simps) simp

lemma pow2_gt_256:
  assumes "256 < (2::nat) ^ e"
  shows "9 \<le> e"
proof (rule ccontr)
  assume "\<not> 9 \<le> e"
  then have "e \<le> 8" by simp
  then have "(2::nat) ^ e \<le> 2 ^ 8" by (intro power_increasing) simp_all
  with assms show False by simp
qed

lemma fri_shape:
  assumes "fri this pTree polyValues maxDegreePlus1 depth domain result = Inr result'"
    and "fourColumns polyValues"
    and "4 * length polyValues = 2 ^ e"
    and "length polyValues * (4 * 4 ^ depth) \<le> length domain"
  shows "length (ldp_remainder result') = 2 ^ (e - 2 * friLayers (2 ^ e))
       \<and> 2 * friLayers (2 ^ e) \<le> e
       \<and> length (ldp_components result')
           = (if friLayers (2 ^ e) = 0 then length (ldp_components result)
              else max (length (ldp_components result)) (depth + friLayers (2 ^ e)))"
  using assms
proof (induction this pTree polyValues maxDegreePlus1 depth domain result
         arbitrary: result' e rule: fri.induct)
  case (1 this pTree polyValues maxDegreePlus1 depth domain result)
  have count: "rowCount polyValues * colCount polyValues = 2 ^ e"
    using "1.prems"(2,3) by (simp add: count_fourColumns)
  show ?case
  proof (cases "rowCount polyValues * colCount polyValues \<le> MAX_REMAINDER_LENGTH")
    case True
    then have small: "(2::nat) ^ e \<le> 256"
      by (simp add: count MAX_REMAINDER_LENGTH_def)
    from True "1.prems"(1)
    have "ldp_remainder result' = joinMatrixRows (transposeMatrix polyValues)"
      and "ldp_components result' = ldp_components result"
      by (auto simp: fri.simps [of this pTree polyValues] Let_def split: sum.splits)
    then show ?thesis
      using "1.prems"(2,3) by (simp add: length_join_transpose friLayers_small [OF small])
  next
    case False
    then have big: "256 < (2::nat) ^ e"
      by (simp add: count MAX_REMAINDER_LENGTH_def)
    obtain column newPolyValues cTree
      where fold: "friFold this pTree polyValues depth domain = (column, newPolyValues, cTree)"
      by (cases "friFold this pTree polyValues depth domain") auto
    note shape = friFold_shape [OF "1.prems"(4) fold]
    from False "1.prems"(1) fold obtain result1 component
      where rec: "fri this cTree newPolyValues (maxDegreePlus1 div 4) (depth + 1) domain result
                  = Inr result1"
        and res: "result' = result1\<lparr>ldp_components :=
                             array_set (ldp_components result1) depth component\<rparr>"
      by (auto simp: fri.simps [of this pTree polyValues] split: sum.splits)
    from big have e9: "9 \<le> e" by (rule pow2_gt_256)
    define e' where "e' = e - 2"
    have e: "e = e' + 2" using e9 by (simp add: e'_def)
    have len: "length polyValues = 2 ^ e'"
      using "1.prems"(3) by (simp add: e)
    define e'' where "e'' = e' - 2"
    have e'': "e' = e'' + 2" using e9 by (simp add: e''_def e'_def)
    have new4: "4 * length newPolyValues = 2 ^ e'"
      by (simp add: shape(2) len e'')
    have dom: "length newPolyValues * (4 * 4 ^ (depth + 1)) \<le> length domain"
    proof -
      have "length newPolyValues * 4 \<le> length polyValues"
        by (simp add: shape(2))
      then have "length newPolyValues * 4 * (4 * 4 ^ depth) \<le> length polyValues * (4 * 4 ^ depth)"
        by (rule mult_le_mono1)
      also note "1.prems"(4)
      finally show ?thesis by (simp add: mult.assoc)
    qed
    from False fold have IH: "length (ldp_remainder result1) = 2 ^ (e' - 2 * friLayers (2 ^ e'))
       \<and> 2 * friLayers (2 ^ e') \<le> e'
       \<and> length (ldp_components result1)
           = (if friLayers (2 ^ e') = 0 then length (ldp_components result)
              else max (length (ldp_components result)) (depth + 1 + friLayers (2 ^ e')))"
      using "1.IH" [OF _ _ _ rec shape(3) new4 dom] by simp
    define K where "K = friLayers (2 ^ e')"
    have layers: "friLayers (2 ^ e) = Suc K"
      using friLayers_big [OF big] by (simp add: e K_def)
    from IH have r1: "length (ldp_remainder result1) = 2 ^ (e' - 2 * K)"
      and k1: "2 * K \<le> e'"
      and c1: "length (ldp_components result1)
           = (if K = 0 then length (ldp_components result)
              else max (length (ldp_components result)) (depth + 1 + K))"
      by (simp_all add: K_def)
    have ee: "e - 2 * Suc K = e' - 2 * K"
      unfolding e by simp
    have "length (ldp_remainder result') = 2 ^ (e - 2 * Suc K)"
      unfolding ee using r1 by (simp add: res)
    moreover have "2 * Suc K \<le> e"
      unfolding e using k1 by simp
    moreover have "length (ldp_components result')
           = max (length (ldp_components result)) (depth + Suc K)"
      using c1 by (simp add: res length_array_set max_def)
    ultimately show ?thesis
      unfolding layers by simp
  qed
qed


lemma ceiling_half: "\<lceil>real e / 2\<rceil> = int ((e + 1) div 2)"
proof (cases "even e")
  case True
  then obtain k where k: "e = 2 * k" by (elim evenE)
  then show ?thesis by simp
next
  case False
  then obtain k where k: "e = 2 * k + 1" by (elim oddE)
  have "real e / 2 = real k + 1 / 2" by (simp add: k)
  then have "\<lceil>real e / 2\<rceil> = int k + 1"
    by (intro ceiling_unique) simp_all
  then show ?thesis by (simp add: k)
qed

lemma friLayers_pow2: "friLayers (2 ^ e) = (e + 1) div 2 - 4"
proof (induction e rule: less_induct)
  case (less e)
  show ?case
  proof (cases "(2::nat) ^ e \<le> 256")
    case True
    have "e \<le> 8"
    proof (rule ccontr)
      assume "\<not> e \<le> 8"
      then have "9 \<le> e" by simp
      then have "(2::nat) ^ 9 \<le> 2 ^ e" by (intro power_increasing) simp_all
      with True show False by simp
    qed
    then show ?thesis by (simp add: friLayers_small [OF True])
  next
    case False
    then have big: "256 < (2::nat) ^ e" by simp
    then have e9: "9 \<le> e" by (rule pow2_gt_256)
    define e' where "e' = e - 2"
    have e: "e = e' + 2" using e9 by (simp add: e'_def)
    have "friLayers (2 ^ e) = Suc (friLayers (2 ^ e'))"
      using friLayers_big [OF big] by (simp add: e)
    also have "friLayers (2 ^ e') = (e' + 1) div 2 - 4"
      by (rule less) (simp add: e)
    finally show ?thesis
      using e9 by (simp add: e)
  qed
qed

lemma friLayers_formula:
  "int (friLayers (2 ^ e)) = max 0 (\<lceil>real e / 2\<rceil> - 4)"
  by (simp add: friLayers_pow2 ceiling_half)


lemma log2_pow: "log 2 (2 ^ e) = real e"
  by simp

lemma REMAINDER_SLOTS_eq: "REMAINDER_SLOTS = 4"
proof -
  have "log 2 (2 ^ 8) = real 8" by (rule log2_pow)
  then have "log 2 (256::real) = 8" by simp
  then show ?thesis by (simp add: REMAINDER_SLOTS_def MAX_REMAINDER_LENGTH_def)
qed

lemma getComponentCount_pow2:
  "getComponentCount (2 ^ e) = min (real_of_int \<lceil>real e / 2\<rceil> - 4) 0"
  by (simp add: getComponentCount_def REMAINDER_SLOTS_eq Let_def)

lemma getComponentCount_nonpositive: "getComponentCount n \<le> 0"
  by (simp add: getComponentCount_def Let_def)

lemma getComponentCount_negative:
  "e \<le> 6 \<Longrightarrow> getComponentCount (2 ^ e) < 0"
proof -
  assume "e \<le> 6"
  then have "(e + 1) div 2 \<le> 3" by simp
  then have "real_of_int \<lceil>real e / 2\<rceil> \<le> 3"
    by (simp add: ceiling_half)
  then show ?thesis by (simp add: getComponentCount_pow2)
qed

lemma getComponentCount_zero:
  "7 \<le> e \<Longrightarrow> getComponentCount (2 ^ e) = 0"
proof -
  assume "7 \<le> e"
  then have "4 \<le> (e + 1) div 2" by simp
  then have "4 \<le> real_of_int \<lceil>real e / 2\<rceil>"
    by (simp add: ceiling_half)
  then show ?thesis by (simp add: getComponentCount_pow2)
qed

lemma fri_old_shape:
  assumes "fri_old this lTree values_m maxDegreePlus1 depth domain result = Inr result'"
    and "fourColumns values_m"
    and "4 * length values_m = 2 ^ e"
    and "length values_m * (4 * 4 ^ depth) \<le> length domain"
  shows "length (old_remainder result') = 2 ^ (e - 2 * friLayers (2 ^ e))
       \<and> 2 * friLayers (2 ^ e) \<le> e
       \<and> length (old_components result')
           = (if friLayers (2 ^ e) = 0 then length (old_components result)
              else max (length (old_components result)) (depth + friLayers (2 ^ e)))"
  using assms
proof (induction this lTree values_m maxDegreePlus1 depth domain result
         arbitrary: result' e rule: fri_old.induct)
  case (1 this lTree values_m maxDegreePlus1 depth domain result)
  have count: "rowCount values_m * colCount values_m = 2 ^ e"
    using "1.prems"(2,3) by (simp add: count_fourColumns)
  show ?case
  proof (cases "rowCount values_m \<le> 64")
    case True
    then have small: "(2::nat) ^ e \<le> 256"
      using "1.prems"(3) [symmetric] by (simp add: rowCount_def)
    from True "1.prems"(1)
    have "old_remainder result'
            = splitBuffer (this_field this) (joinMatrixRows (transposeMatrix values_m))"
      and "old_components result' = old_components result"
      by (auto simp: fri_old.simps [of this lTree values_m] Let_def split: sum.splits)
    then show ?thesis
      using "1.prems"(2,3) by (simp add: length_join_transpose friLayers_small [OF small] splitBuffer_def)
  next
    case False
    then have big: "256 < (2::nat) ^ e"
      using "1.prems"(3) [symmetric] by (simp add: rowCount_def)
    obtain column newValues cTree
      where fold: "friFold this lTree values_m depth domain = (column, newValues, cTree)"
      by (cases "friFold this lTree values_m depth domain") auto
    note shape = friFold_shape [OF "1.prems"(4) fold]
    from False "1.prems"(1) fold obtain result1 component
      where rec: "fri_old this cTree newValues (maxDegreePlus1 div 4) (depth + 1) domain result
                  = Inr result1"
        and res: "result' = result1\<lparr>old_components :=
                             array_set (old_components result1) depth component\<rparr>"
      by (auto simp: fri_old.simps [of this lTree values_m] split: sum.splits)
    from big have e9: "9 \<le> e" by (rule pow2_gt_256)
    define e' where "e' = e - 2"
    have e: "e = e' + 2" using e9 by (simp add: e'_def)
    have len: "length values_m = 2 ^ e'"
      using "1.prems"(3) by (simp add: e)
    define e'' where "e'' = e' - 2"
    have e'': "e' = e'' + 2" using e9 by (simp add: e''_def e'_def)
    have new4: "4 * length newValues = 2 ^ e'"
      by (simp add: shape(2) len e'')
    have dom: "length newValues * (4 * 4 ^ (depth + 1)) \<le> length domain"
    proof -
      have "length newValues * 4 \<le> length values_m"
        by (simp add: shape(2))
      then have "length newValues * 4 * (4 * 4 ^ depth) \<le> length values_m * (4 * 4 ^ depth)"
        by (rule mult_le_mono1)
      also note "1.prems"(4)
      finally show ?thesis by (simp add: mult.assoc)
    qed
    from False fold have IH: "length (old_remainder result1) = 2 ^ (e' - 2 * friLayers (2 ^ e'))
       \<and> 2 * friLayers (2 ^ e') \<le> e'
       \<and> length (old_components result1)
           = (if friLayers (2 ^ e') = 0 then length (old_components result)
              else max (length (old_components result)) (depth + 1 + friLayers (2 ^ e')))"
      using "1.IH" [OF _ _ _ rec shape(3) new4 dom] by simp
    define K where "K = friLayers (2 ^ e')"
    have layers: "friLayers (2 ^ e) = Suc K"
      using friLayers_big [OF big] by (simp add: e K_def)
    from IH have r1: "length (old_remainder result1) = 2 ^ (e' - 2 * K)"
      and k1: "2 * K \<le> e'"
      and c1: "length (old_components result1)
           = (if K = 0 then length (old_components result)
              else max (length (old_components result)) (depth + 1 + K))"
      by (simp_all add: K_def)
    have ee: "e - 2 * Suc K = e' - 2 * K"
      unfolding e by simp
    have "length (old_remainder result') = 2 ^ (e - 2 * Suc K)"
      unfolding ee using r1 by (simp add: res)
    moreover have "2 * Suc K \<le> e"
      unfolding e using k1 by simp
    moreover have "length (old_components result')
           = max (length (old_components result)) (depth + Suc K)"
      using c1 by (simp add: res length_array_set max_def)
    ultimately show ?thesis
      unfolding layers by simp
  qed
qed





lemma fri_inputs:
  assumes "fourColumns polyValues"
    and "rowCount polyValues * colCount polyValues = 2 ^ e"
    and "2 ^ e * 4 ^ depth \<le> length domain"
  shows "4 * length polyValues = 2 ^ e"
    and "length polyValues * (4 * 4 ^ depth) \<le> length domain"
proof -
  show l: "4 * length polyValues = 2 ^ e"
    using assms(1,2) by (simp add: count_fourColumns)
  have "length polyValues * (4 * 4 ^ depth) = (4 * length polyValues) * 4 ^ depth"
    by simp
  also have "\<dots> = 2 ^ e * 4 ^ depth"
    by (simp only: l)
  also note assms(3)
  finally show "length polyValues * (4 * 4 ^ depth) \<le> length domain" .
qed

lemma pow2_quarter: "2 \<le> e \<Longrightarrow> 4 * ((2::nat) ^ e div 4) = 2 ^ e"
proof -
  assume "2 \<le> e"
  then have e: "e = (e - 2) + 2" by simp
  have "(2::nat) ^ ((e - 2) + 2) = 4 * 2 ^ (e - 2)" by (simp add: power_add)
  with e have "(2::nat) ^ e = 4 * 2 ^ (e - 2)" by simp
  then show ?thesis by simp
qed

lemma proveWithCount_negative:
  "componentCount < 0 \<Longrightarrow> proveWithCount this cEvaluations domain d componentCount \<noteq> Inr prf"
  by (simp add: proveWithCount_def Let_def split: sum.splits)

lemma proveWithCount_zero:
  assumes "proveWithCount this cEvaluations domain d 0 = Inr prf"
  shows "\<exists>prf0. ldp_components prf0 = []
           \<and> fri this (digestValues (this_hash this) (this_field this)
                          (transposeVector cEvaluations 4 1))
                (transposeVector cEvaluations 4 1) d 0 domain prf0 = Inr prf"
  using assms
  apply (auto simp: proveWithCount_def Let_def split: sum.splits)
  apply (rule exI, rule conjI)
   prefer 2
   apply assumption
  apply simp
  done

lemma prove_old_count:
  assumes "rowCount values_m * colCount values_m = 2 ^ e"
  shows "prove_old this lTree values_m domain d
         = proveWithCount_old this lTree values_m domain d (getComponentCount (2 ^ e))"
proof -
  have "colCount values_m * rowCount values_m = 2 ^ e"
    using assms by (simp add: mult.commute)
  then show ?thesis
    by (simp add: prove_old_def Let_def getComponentCount_def REMAINDER_SLOTS_eq)
qed

section \<open>C3: the folding recursion stops with a small remainder\<close>




section \<open>The fold and its check\<close>

lemma parseColumnValues_loop_length:
  "parseColumnValues_loop this buffers aug c ps acc = Inr vs \<Longrightarrow>
   length vs = length acc + length ps"
proof (induction ps arbitrary: acc)
  case Nil
  then show ?case by simp
next
  case (Cons p ps)
  from Cons.prems obtain v
    where "parseColumnValues_loop this buffers aug c ps (acc @ [v]) = Inr vs"
    by (auto split: sum.splits)
  from Cons.IH [OF this] show ?case by simp
qed

lemma parseColumnValues_length:
  "parseColumnValues this buffers ps aug c = Inr vs \<Longrightarrow> length vs = length ps"
  using parseColumnValues_loop_length [of this buffers aug c ps "[]" vs]
  by (simp add: parseColumnValues_def)

lemma length_componentEvaluations:
  "length (componentEvaluations this q st c)
   = min (length (componentPositions this st c)) (length (proof_values (comp_polyProof c)))"
  by (simp add: componentEvaluations_def Let_def evalQuarticBatch_def interpolateQuarticBatch_def
        componentXs_def parsePolyValues_def)

lemma componentEvaluations_nth:
  assumes "i < length (componentPositions this st c)"
    and "i < length (proof_values (comp_polyProof c))"
  shows "componentEvaluations this q st c ! i
         = evalPolyAt (this_field this)
             (interpolate (this_field this)
                (map (\<lambda>j. mul (this_field this) (q ! j)
                             (exp_f (this_field this) (st_rootOfUnity st)
                                (componentPositions this st c ! i))) [0..<4])
                (map (\<lambda>j. this_readBigInt this (proof_values (comp_polyProof c) ! i)
                             (j * field_elementSize (this_field this))
                             (field_elementSize (this_field this))) [0..<4]))
             (prng (this_field this) (st_pRoot st))"
  using assms
  by (simp add: componentEvaluations_def Let_def evalQuarticBatch_def interpolateQuarticBatch_def
        componentXs_def parsePolyValues_def)

lemma verifyComponent_check:
  assumes "componentColumnValues this st c = Inr columnValues"
    and "verifyBatch (this_merkle this) (comp_columnRoot c)
           (getAugmentedPositions (componentPositions this st c) (st_columnLength st))
           (rehashMerkleProofValues (comp_columnProof c) (this_hash this))"
    and "verifyBatch (this_merkle this) (st_pRoot st) (componentPositions this st c)
           (rehashMerkleProofValues (comp_polyProof c) (this_hash this))"
  shows "verifyComponent this q depth st (Some c)
         = (if \<exists>i \<in> set [0..<length (componentEvaluations this q st c)].
                 js_index (componentEvaluations this q st c) i \<noteq> js_index columnValues i
            then Inl (StarkError ''Degree 4 polynomial didn't evaluate to column value at depth'')
            else Inr (nextState this st c))"
  using assms by (simp add: verifyComponent_def Let_def)


lemma transposeVector_nth:
  "i < length v div (columns * step) \<Longrightarrow>
   transposeVector v columns step ! i
   = map (\<lambda>j. v ! ((i + j * (length v div (columns * step))) * step)) [0..<columns]"
  by (simp add: transposeVector_def Let_def)

lemma friFold_column:
  assumes dom_len: "length domain = 4 * 4 ^ depth * length polyValues"
    and fold: "friFold this pTree polyValues depth domain = (column, newPolyValues, cTree)"
    and p: "p < length polyValues"
  shows "column ! p
         = evalPolyAt (this_field this)
             (interpolate (this_field this)
                (map (\<lambda>j. domain ! ((p + j * length polyValues) * 4 ^ depth)) [0..<4])
                (polyValues ! p))
             (prng (this_field this) (tree_root (this_merkle this) pTree))"
proof -
  have rows: "length domain div (4 * 4 ^ depth) = length polyValues"
    by (simp add: dom_len)
  have len: "length (transposeVector domain 4 (4 ^ depth)) = length polyValues"
    by (simp add: length_transposeVector rows)
  have x: "transposeVector domain 4 (4 ^ depth) ! p
           = map (\<lambda>j. domain ! ((p + j * length polyValues) * 4 ^ depth)) [0..<4]"
    using p transposeVector_nth [of p domain 4 "4 ^ depth"] by (simp only: rows)
  from fold have "column = evalQuarticBatch (this_field this)
                    (interpolateQuarticBatch (this_field this)
                       (transposeVector domain 4 (4 ^ depth)) polyValues)
                    (prng (this_field this) (tree_root (this_merkle this) pTree))"
    by (simp add: friFold_def Let_def)
  then show ?thesis
    using p len by (simp add: evalQuarticBatch_def interpolateQuarticBatch_def x)
qed

lemma friFold_parts:
  assumes "friFold this pTree polyValues depth domain = (column, newPolyValues, cTree)"
  shows "newPolyValues = transposeVector column 4 1"
    and "cTree = digestValues (this_hash this) (this_field this) newPolyValues"
  using assms by (auto simp: friFold_def Let_def)

lemma quartic_xs:
  fixes F :: "('a::one, 'b) FiniteField"
  assumes L1: "\<forall>a b. mul F (exp_f F g a) (exp_f F g b) = exp_f F g (a + b)"
    and L2: "\<forall>a b. exp_f F (exp_f F g a) b = exp_f F g (a * b)"
    and L3: "exp_f F g 0 = 1"
    and N: "N = 4 * step * L"
  shows "map (\<lambda>j. mul F (quarticRoots F g N ! j) (exp_f F (exp_f F g step) p)) [0..<4]
         = map (\<lambda>j. exp_f F g ((p + j * L) * step)) [0..<4]"
proof -
  have d4: "N div 4 = step * L" unfolding N by simp
  have d2: "N div 2 = 2 * (step * L)" unfolding N by simp
  have d3: "N * 3 div 4 = 3 * (step * L)" unfolding N by simp
  have q0: "quarticRoots F g N ! 0 = exp_f F g 0"
    by (simp add: quarticRoots_def L3)
  have q1: "quarticRoots F g N ! 1 = exp_f F g (step * L)"
    unfolding quarticRoots_def d4 d2 d3 by simp
  have q2: "quarticRoots F g N ! 2 = exp_f F g (2 * (step * L))"
    unfolding quarticRoots_def d4 d2 d3 by simp
  have q3: "quarticRoots F g N ! 3 = exp_f F g (3 * (step * L))"
    unfolding quarticRoots_def d4 d2 d3 by (simp add: eval_nat_numeral)
  have e: "mul F (exp_f F g a) (exp_f F (exp_f F g step) p) = exp_f F g (a + step * p)" for a
    using L1 L2 by simp
  have u: "[0..<4] = [0, 1, 2, 3::nat]"
    by (simp add: upt_rec)
  have a0: "0 + step * p = (p + 0 * L) * step" by simp
  have a1: "step * L + step * p = (p + 1 * L) * step" by (simp add: algebra_simps)
  have a2: "2 * (step * L) + step * p = (p + 2 * L) * step" by (simp add: algebra_simps)
  have a3: "3 * (step * L) + step * p = (p + 3 * L) * step" by (simp add: algebra_simps)
  show ?thesis
    unfolding u list.map q0 q1 q2 q3 e a0 a1 a2 a3 by (rule refl)
qed


lemma map_nth_4: "length row = 4 \<Longrightarrow> map (\<lambda>j. row ! j) [0..<4] = row"
  using map_nth [of row] by simp

lemma honest_layer:
  fixes this :: "('a::one, 'b) LowDegreeProver"
  assumes four: "fourColumns polyValues"
    and L4: "4 dvd length polyValues"
    and Lpos: "0 < length polyValues"
    and dom_len: "length domain = 4 * 4 ^ depth * length polyValues"
    and dom: "\<forall>i < length domain. domain ! i = exp_f (this_field this) g i"
    and L1: "\<forall>a b. mul (this_field this) (exp_f (this_field this) g a) (exp_f (this_field this) g b)
                   = exp_f (this_field this) g (a + b)"
    and L2: "\<forall>a b. exp_f (this_field this) (exp_f (this_field this) g a) b
                   = exp_f (this_field this) g (a * b)"
    and L3: "exp_f (this_field this) g 0 = 1"
    and codec: "\<forall>row j. length row = 4 \<longrightarrow> j < 4 \<longrightarrow>
                  this_readBigInt this (toBuffer (this_field this) row)
                    (j * field_elementSize (this_field this))
                    (field_elementSize (this_field this)) = row ! j"
    and fold: "friFold this pTree polyValues depth domain = (column, newPolyValues, cTree)"
    and range: "\<forall>p \<in> set (getFriIndexes (this_idxGenerator this)
                              (tree_root (this_merkle this) cTree) (length polyValues)).
                  p < length polyValues"
    and st: "st_pRoot st = tree_root (this_merkle this) pTree"
      "st_rootOfUnity st = exp_f (this_field this) g (4 ^ depth)"
      "st_columnLength st = length polyValues"
  shows "\<exists>c. friComponent this pTree polyValues column newPolyValues cTree = Inr c
           \<and> comp_columnRoot c = tree_root (this_merkle this) cTree
           \<and> componentColumnValues this st c
               = Inr (map ((!) column) (componentPositions this st c))
           \<and> componentEvaluations this (quarticRoots (this_field this) g (length domain)) st c
               = map ((!) column) (componentPositions this st c)
           \<and> (\<forall>p \<in> set (componentPositions this st c). p < length polyValues)
           \<and> (\<forall>a \<in> set (getAugmentedPositions (componentPositions this st c)
                             (length polyValues)). a < length cTree)
           \<and> rehashMerkleProofValues (comp_columnProof c) (this_hash this)
               = (proveBatch (this_merkle this) cTree
                    (getAugmentedPositions (componentPositions this st c) (length polyValues)))
                 \<lparr>proof_values :=
                    map ((!) cTree)
                      (getAugmentedPositions (componentPositions this st c)
                         (length polyValues))\<rparr>
           \<and> (pTree = digestValues (this_hash this) (this_field this) polyValues \<longrightarrow>
                rehashMerkleProofValues (comp_polyProof c) (this_hash this)
                = (proveBatch (this_merkle this) pTree (componentPositions this st c))
                  \<lparr>proof_values := map ((!) pTree) (componentPositions this st c)\<rparr>)"
proof -
  define F where "F = this_field this"
  define L where "L = length polyValues"
  define rl where "rl = L div 4"
  define positions where
    "positions = getFriIndexes (this_idxGenerator this) (tree_root (this_merkle this) cTree) L"
  define aug where "aug = getAugmentedPositions positions L"
  define colBufs where "colBufs = map (\<lambda>a. toBuffer F (newPolyValues ! a)) aug"
  define polyBufs where "polyBufs = map (\<lambda>p. toBuffer F (polyValues ! p)) positions"
  define c where "c = \<lparr>comp_columnRoot = tree_root (this_merkle this) cTree,
      comp_columnProof = (proveBatch (this_merkle this) cTree aug)\<lparr>proof_values := colBufs\<rparr>,
      comp_polyProof = (proveBatch (this_merkle this) pTree positions)\<lparr>proof_values := polyBufs\<rparr>\<rparr>"
  have bound: "length polyValues * (4 * 4 ^ depth) \<le> length domain"
    by (simp add: dom_len)
  note shape = friFold_shape [OF bound fold]
  note parts = friFold_parts [OF fold]
  have col_len: "length column = L" by (simp add: shape(1) L_def)
  have L: "L = 4 * rl" using L4 by (simp add: rl_def L_def)
  have rl_pos: "0 < rl"
  proof (rule ccontr)
    assume "\<not> 0 < rl"
    then have "rl = 0" by simp
    with L have "L = 0" by simp
    with Lpos show False by (simp add: L_def)
  qed
  have new_len: "length newPolyValues = rl" by (simp add: shape(2) rl_def L_def)
  have pos_lt: "p < L" if "p \<in> set positions" for p
    using range that by (simp add: positions_def L_def)
  have aug_eq: "aug = first_occurrences (map (\<lambda>p. p mod rl) positions)"
    using L4 by (simp add: aug_def getAugmentedPositions_eq rl_def L_def)
  have aug_lt: "a < rl" if "a \<in> set aug" for a
    using that rl_pos by (auto simp: aug_eq set_first_occurrences)
  have rb1: "rowsToBuffers F newPolyValues aug = Inr colBufs"
    using aug_lt by (simp add: rowsToBuffers_def new_len colBufs_def)
  have rb2: "rowsToBuffers F polyValues positions = Inr polyBufs"
    using pos_lt by (simp add: rowsToBuffers_def L_def polyBufs_def)
  have comp: "friComponent this pTree polyValues column newPolyValues cTree = Inr c"
    using rb1 rb2
    by (simp add: friComponent_def Let_def col_len positions_def [symmetric] aug_def [symmetric]
          F_def [symmetric] c_def)
  have cpos: "componentPositions this st c = positions"
    by (simp add: componentPositions_def c_def st(3) positions_def L_def)
  have row4: "length (polyValues ! p) = 4" if "p < L" for p
    using four that by (simp add: fourColumns_def L_def)
  have new4: "length (newPolyValues ! a) = 4" if "a < rl" for a
    using shape(3) that by (simp add: fourColumns_def new_len)
  have rd: "this_readBigInt this (toBuffer F row) (j * field_elementSize F) (field_elementSize F)
            = row ! j" if "length row = 4" "j < 4" for row j
    using codec that by (simp add: F_def)
  text \<open>the evaluations\<close>
  have pv: "proof_values (comp_polyProof c) = polyBufs"
    by (simp add: c_def)
  have cpv: "proof_values (comp_columnProof c) = colBufs"
    by (simp add: c_def)
  have ev_len: "length (componentEvaluations this (quarticRoots F g (length domain)) st c)
                = length positions"
    by (simp add: length_componentEvaluations cpos pv polyBufs_def)
  have ev_nth: "componentEvaluations this (quarticRoots F g (length domain)) st c ! i
                = column ! (positions ! i)" if i: "i < length positions" for i
  proof -
    define p where "p = positions ! i"
    have p: "p < L" using i by (simp add: p_def pos_lt)
    have buf: "proof_values (comp_polyProof c) ! i = toBuffer F (polyValues ! p)"
      using i by (simp add: pv polyBufs_def p_def)
    have ys: "map (\<lambda>j. this_readBigInt this (toBuffer F (polyValues ! p))
                          (j * field_elementSize F) (field_elementSize F)) [0..<4]
              = polyValues ! p"
    proof -
      have "map (\<lambda>j. this_readBigInt this (toBuffer F (polyValues ! p))
                          (j * field_elementSize F) (field_elementSize F)) [0..<4]
            = map (\<lambda>j. (polyValues ! p) ! j) [0..<4]"
        by (intro map_cong refl rd row4 p) simp
      then show ?thesis by (simp only: map_nth_4 [OF row4 [OF p]])
    qed
    have N: "length domain = 4 * 4 ^ depth * L"
      by (simp add: dom_len L_def)
    have xs1: "map (\<lambda>j. mul F (quarticRoots F g (length domain) ! j)
                          (exp_f F (exp_f F g (4 ^ depth)) p)) [0..<4]
               = map (\<lambda>j. exp_f F g ((p + j * L) * 4 ^ depth)) [0..<4]"
      using L1 L2 L3 N unfolding F_def [symmetric] by (rule quartic_xs)
    have xs2: "map (\<lambda>j. exp_f F g ((p + j * L) * 4 ^ depth)) [0..<4]
               = map (\<lambda>j. domain ! ((p + j * L) * 4 ^ depth)) [0..<4]"
    proof (intro map_cong refl)
      fix j :: nat assume "j \<in> set [0..<4]"
      then have j: "j \<le> 3" by simp
      have "p + j * L < 4 * L"
      proof -
        have "j * L \<le> 3 * L" using j by (rule mult_le_mono1)
        with p show ?thesis by linarith
      qed
      then have "(p + j * L) * 4 ^ depth < 4 * L * 4 ^ depth"
        by simp
      then have "(p + j * L) * 4 ^ depth < length domain"
        by (simp add: N mult.commute mult.left_commute)
      with dom show "exp_f F g ((p + j * L) * 4 ^ depth) = domain ! ((p + j * L) * 4 ^ depth)"
        by (simp add: F_def)
    qed
    have "componentEvaluations this (quarticRoots F g (length domain)) st c ! i
          = evalPolyAt F
              (interpolate F
                 (map (\<lambda>j. mul F (quarticRoots F g (length domain) ! j)
                          (exp_f F (exp_f F g (4 ^ depth)) p)) [0..<4])
                 (map (\<lambda>j. this_readBigInt this (toBuffer F (polyValues ! p))
                          (j * field_elementSize F) (field_elementSize F)) [0..<4]))
              (prng F (tree_root (this_merkle this) pTree))"
      using i componentEvaluations_nth [of i this st c "quarticRoots F g (length domain)"]
      unfolding cpos buf st(1,2) F_def [symmetric] p_def [symmetric]
      by (simp add: pv polyBufs_def)
    also have "\<dots> = column ! p"
      unfolding xs1 xs2 ys
      using friFold_column [OF dom_len fold, of p] p
      by (simp add: F_def L_def)
    finally show ?thesis by (simp add: p_def)
  qed
  have ev: "componentEvaluations this (quarticRoots F g (length domain)) st c
            = map ((!) column) positions"
    by (intro nth_equalityI) (simp_all add: ev_len ev_nth)
  text \<open>the column values\<close>
  have each: "\<forall>p \<in> set positions. parseColumnValue this colBufs aug L p = Inr (column ! p)"
  proof
    fix p assume pin: "p \<in> set positions"
    then have p: "p < L" by (rule pos_lt)
    have "p mod rl \<in> set aug"
      using pin by (simp add: aug_eq set_first_occurrences)
    from indexOf_Some [OF this] obtain i
      where i: "indexOf aug (p mod rl) = Some i" "i < length aug" "aug ! i = p mod rl"
      by blast
    have q4: "p div rl < 4"
      using p rl_pos by (simp add: L less_mult_imp_div_less mult.commute)
    have m: "p mod rl < rl" using rl_pos by simp
    have "parseColumnValue this colBufs aug L p
          = Inr (this_readBigInt this (colBufs ! i)
                   (p div (L div 4) * field_elementSize (this_field this))
                   (field_elementSize (this_field this)))"
      using i(1,2) L4 Lpos
      by (intro parseColumnValue_dvd) (simp_all add: L_def rl_def colBufs_def)
    also have "colBufs ! i = toBuffer F (newPolyValues ! (p mod rl))"
      using i(2,3) by (simp add: colBufs_def)
    also have "this_readBigInt this (toBuffer F (newPolyValues ! (p mod rl)))
                   (p div (L div 4) * field_elementSize (this_field this))
                   (field_elementSize (this_field this))
               = (newPolyValues ! (p mod rl)) ! (p div rl)"
      using rd [OF new4 [OF m] q4] by (simp add: F_def rl_def)
    also have "(newPolyValues ! (p mod rl)) ! (p div rl) = column ! (p mod rl + p div rl * rl)"
    proof -
      have r: "length column div (4 * 1) = rl" by (simp add: col_len rl_def)
      have "transposeVector column 4 1 ! (p mod rl)
            = map (\<lambda>j. column ! ((p mod rl + j * rl) * 1)) [0..<4]"
        using transposeVector_nth [of "p mod rl" column 4 1] m unfolding r by simp
      then show ?thesis using q4 by (simp add: parts(1))
    qed
    also have "p mod rl + p div rl * rl = p" by simp
    finally show "parseColumnValue this colBufs aug L p = Inr (column ! p)" .
  qed
  have cv: "componentColumnValues this st c = Inr (map ((!) column) positions)"
    using parseColumnValues_loop_map [OF each, of "[]"]
    by (simp add: componentColumnValues_def Let_def cpos st(3) L_def [symmetric]
          aug_def [symmetric] parseColumnValues_def cpv)
  have root: "comp_columnRoot c = tree_root (this_merkle this) cTree"
    by (simp add: c_def)
  have tree_len: "length cTree = rl"
    by (simp add: shape(4) new_len)
  have in1: "\<forall>p \<in> set positions. p < length polyValues"
    using pos_lt by (simp add: L_def)
  have in2: "\<forall>a \<in> set aug. a < length cTree"
    using aug_lt by (simp add: tree_len)
  have r1: "rehashMerkleProofValues (comp_columnProof c) (this_hash this)
            = (proveBatch (this_merkle this) cTree aug)\<lparr>proof_values := map ((!) cTree) aug\<rparr>"
  proof -
    have "map (digest (this_hash this)) colBufs = map ((!) cTree) aug"
      unfolding colBufs_def map_map
      by (intro map_cong refl)
         (simp add: parts(2) digestValues_def new_len aug_lt F_def)
    then show ?thesis
      by (simp add: rehashMerkleProofValues_def c_def)
  qed
  have r2: "rehashMerkleProofValues (comp_polyProof c) (this_hash this)
            = (proveBatch (this_merkle this) pTree positions)
              \<lparr>proof_values := map ((!) pTree) positions\<rparr>"
    if tree: "pTree = digestValues (this_hash this) (this_field this) polyValues"
  proof -
    have "map (digest (this_hash this)) polyBufs = map ((!) pTree) positions"
      unfolding polyBufs_def map_map
      by (intro map_cong refl)
         (simp add: tree digestValues_def pos_lt [unfolded L_def] F_def)
    then show ?thesis
      by (simp add: rehashMerkleProofValues_def c_def)
  qed
  from comp root cv ev in1 in2 r1 r2
  have "friComponent this pTree polyValues column newPolyValues cTree = Inr c
           \<and> comp_columnRoot c = tree_root (this_merkle this) cTree
           \<and> componentColumnValues this st c
               = Inr (map ((!) column) (componentPositions this st c))
           \<and> componentEvaluations this (quarticRoots (this_field this) g (length domain)) st c
               = map ((!) column) (componentPositions this st c)
           \<and> (\<forall>p \<in> set (componentPositions this st c). p < length polyValues)
           \<and> (\<forall>a \<in> set (getAugmentedPositions (componentPositions this st c)
                             (length polyValues)). a < length cTree)
           \<and> rehashMerkleProofValues (comp_columnProof c) (this_hash this)
               = (proveBatch (this_merkle this) cTree
                    (getAugmentedPositions (componentPositions this st c) (length polyValues)))
                 \<lparr>proof_values :=
                    map ((!) cTree)
                      (getAugmentedPositions (componentPositions this st c)
                         (length polyValues))\<rparr>
           \<and> (pTree = digestValues (this_hash this) (this_field this) polyValues \<longrightarrow>
                rehashMerkleProofValues (comp_polyProof c) (this_hash this)
                = (proveBatch (this_merkle this) pTree (componentPositions this st c))
                  \<lparr>proof_values := map ((!) pTree) (componentPositions this st c)\<rparr>)"
    unfolding cpos F_def aug_def [symmetric, unfolded L_def] by (intro conjI impI)
  then show ?thesis by (rule exI)
qed


lemma honest_layer_accepted:
  fixes this :: "('a::one, 'b) LowDegreeProver"
  assumes four: "fourColumns polyValues"
    and L4: "4 dvd length polyValues"
    and Lpos: "0 < length polyValues"
    and dom_len: "length domain = 4 * 4 ^ depth * length polyValues"
    and dom: "\<forall>i < length domain. domain ! i = exp_f (this_field this) g i"
    and L1: "\<forall>a b. mul (this_field this) (exp_f (this_field this) g a) (exp_f (this_field this) g b)
                   = exp_f (this_field this) g (a + b)"
    and L2: "\<forall>a b. exp_f (this_field this) (exp_f (this_field this) g a) b
                   = exp_f (this_field this) g (a * b)"
    and L3: "exp_f (this_field this) g 0 = 1"
    and codec: "\<forall>row j. length row = 4 \<longrightarrow> j < 4 \<longrightarrow>
                  this_readBigInt this (toBuffer (this_field this) row)
                    (j * field_elementSize (this_field this))
                    (field_elementSize (this_field this)) = row ! j"
    and fold: "friFold this pTree polyValues depth domain = (column, newPolyValues, cTree)"
    and range: "\<forall>p \<in> set (getFriIndexes (this_idxGenerator this)
                              (tree_root (this_merkle this) cTree) (length polyValues)).
                  p < length polyValues"
    and st: "st_pRoot st = tree_root (this_merkle this) pTree"
      "st_rootOfUnity st = exp_f (this_field this) g (4 ^ depth)"
      "st_columnLength st = length polyValues"
    and tree: "pTree = digestValues (this_hash this) (this_field this) polyValues"
    and merkle: "\<forall>leaves positions. (\<forall>p \<in> set positions. p < length leaves) \<longrightarrow>
                   verifyBatch (this_merkle this) (tree_root (this_merkle this) leaves) positions
                     ((proveBatch (this_merkle this) leaves positions)
                        \<lparr>proof_values := map ((!) leaves) positions\<rparr>)"
  shows "\<exists>c. friComponent this pTree polyValues column newPolyValues cTree = Inr c
           \<and> comp_columnRoot c = tree_root (this_merkle this) cTree
           \<and> verifyComponent this (quarticRoots (this_field this) g (length domain)) k st (Some c)
               = Inr (nextState this st c)"
proof -
  from honest_layer [OF four L4 Lpos dom_len dom L1 L2 L3 codec fold range st]
  obtain c where comp: "friComponent this pTree polyValues column newPolyValues cTree = Inr c"
    and root: "comp_columnRoot c = tree_root (this_merkle this) cTree"
    and cv: "componentColumnValues this st c
               = Inr (map ((!) column) (componentPositions this st c))"
    and ev: "componentEvaluations this (quarticRoots (this_field this) g (length domain)) st c
               = map ((!) column) (componentPositions this st c)"
    and in1: "\<forall>p \<in> set (componentPositions this st c). p < length polyValues"
    and in2: "\<forall>a \<in> set (getAugmentedPositions (componentPositions this st c)
                             (length polyValues)). a < length cTree"
    and r1: "rehashMerkleProofValues (comp_columnProof c) (this_hash this)
               = (proveBatch (this_merkle this) cTree
                    (getAugmentedPositions (componentPositions this st c) (length polyValues)))
                 \<lparr>proof_values :=
                    map ((!) cTree)
                      (getAugmentedPositions (componentPositions this st c)
                         (length polyValues))\<rparr>"
    and r2: "pTree = digestValues (this_hash this) (this_field this) polyValues \<longrightarrow>
                rehashMerkleProofValues (comp_polyProof c) (this_hash this)
                = (proveBatch (this_merkle this) pTree (componentPositions this st c))
                  \<lparr>proof_values := map ((!) pTree) (componentPositions this st c)\<rparr>"
    by blast
  have m1: "verifyBatch (this_merkle this) (comp_columnRoot c)
           (getAugmentedPositions (componentPositions this st c) (st_columnLength st))
           (rehashMerkleProofValues (comp_columnProof c) (this_hash this))"
    unfolding root st(3) r1 using merkle in2 by blast
  have len: "length pTree = length polyValues"
    by (simp add: tree digestValues_def)
  have m2: "verifyBatch (this_merkle this) (st_pRoot st) (componentPositions this st c)
           (rehashMerkleProofValues (comp_polyProof c) (this_hash this))"
    unfolding st(1) r2 [rule_format, OF tree] using merkle in1 len by simp
  have "verifyComponent this (quarticRoots (this_field this) g (length domain)) k st (Some c)
        = Inr (nextState this st c)"
    unfolding verifyComponent_check [OF cv m1 m2] ev by simp
  with comp root show ?thesis by blast
qed

lemma drop_array_set: "drop i (array_set xs i v) = Some v # drop (Suc i) xs"
proof (cases "i < length xs")
  case True
  then show ?thesis
    by (simp add: array_set_def drop_update_cancel Cons_nth_drop_Suc [symmetric])
next
  case False
  then show ?thesis by (simp add: array_set_def)
qed


lemma fri_components_accepted:
  fixes this :: "('a::one, 'b) LowDegreeProver"
  assumes run: "fri this pTree polyValues maxDegreePlus1 depth domain result = Inr result'"
    and four: "fourColumns polyValues"
    and e: "4 * length polyValues = 2 ^ e"
    and dom_len: "length domain = 4 * 4 ^ depth * length polyValues"
    and len: "length (ldp_components result) \<le> depth"
    and tree: "pTree = digestValues (this_hash this) (this_field this) polyValues"
    and st: "st_pRoot st = tree_root (this_merkle this) pTree"
      "st_rootOfUnity st = exp_f (this_field this) g (4 ^ depth)"
      "st_columnLength st = length polyValues"
    and dom: "\<forall>i < length domain. domain ! i = exp_f (this_field this) g i"
    and L1: "\<forall>a b. mul (this_field this) (exp_f (this_field this) g a) (exp_f (this_field this) g b)
                   = exp_f (this_field this) g (a + b)"
    and L2: "\<forall>a b. exp_f (this_field this) (exp_f (this_field this) g a) b
                   = exp_f (this_field this) g (a * b)"
    and L3: "exp_f (this_field this) g 0 = 1"
    and codec: "\<forall>row j. length row = 4 \<longrightarrow> j < 4 \<longrightarrow>
                  this_readBigInt this (toBuffer (this_field this) row)
                    (j * field_elementSize (this_field this))
                    (field_elementSize (this_field this)) = row ! j"
    and range: "\<forall>root n. \<forall>p \<in> set (getFriIndexes (this_idxGenerator this) root n). p < n"
    and merkle: "\<forall>leaves positions. (\<forall>p \<in> set positions. p < length leaves) \<longrightarrow>
                   verifyBatch (this_merkle this) (tree_root (this_merkle this) leaves) positions
                     ((proveBatch (this_merkle this) leaves positions)
                        \<lparr>proof_values := map ((!) leaves) positions\<rparr>)"
  shows "\<exists>st'. verifyComponents this (quarticRoots (this_field this) g (length domain)) depth st
                 (drop depth (ldp_components result')) = Inr st'
              \<and> length (drop depth (ldp_components result')) = friLayers (2 ^ e)"
  using run four e dom_len len tree st dom L1 L2 L3 codec range merkle
proof (induction this pTree polyValues maxDegreePlus1 depth domain result
         arbitrary: result' e st rule: fri.induct)
  case (1 this pTree polyValues maxDegreePlus1 depth domain result)
  note dom = "1.prems"(10) and L1 = "1.prems"(11) and L2 = "1.prems"(12) and L3 = "1.prems"(13)
    and codec = "1.prems"(14) and range = "1.prems"(15) and merkle = "1.prems"(16)
  note run = "1.prems"(1) and four = "1.prems"(2) and e = "1.prems"(3)
    and dom_len = "1.prems"(4) and len = "1.prems"(5) and tree = "1.prems"(6)
    and st = "1.prems"(7,8,9)
  have count: "rowCount polyValues * colCount polyValues = 2 ^ e"
    using four e by (simp add: count_fourColumns)
  show ?case
  proof (cases "rowCount polyValues * colCount polyValues \<le> MAX_REMAINDER_LENGTH")
    case True
    then have small: "(2::nat) ^ e \<le> 256"
      by (simp add: count MAX_REMAINDER_LENGTH_def)
    from True run have "ldp_components result' = ldp_components result"
      by (auto simp: fri.simps [of this pTree polyValues] Let_def split: sum.splits)
    with len show ?thesis
      by (simp add: friLayers_small [OF small])
  next
    case False
    then have big: "256 < (2::nat) ^ e"
      by (simp add: count MAX_REMAINDER_LENGTH_def)
    obtain column newPolyValues cTree
      where fold: "friFold this pTree polyValues depth domain = (column, newPolyValues, cTree)"
      by (cases "friFold this pTree polyValues depth domain") auto
    have bound: "length polyValues * (4 * 4 ^ depth) \<le> length domain"
      by (simp add: dom_len)
    note shape = friFold_shape [OF bound fold]
    note parts = friFold_parts [OF fold]
    from False run fold obtain result1 component
      where rec: "fri this cTree newPolyValues (maxDegreePlus1 div 4) (depth + 1) domain result
                  = Inr result1"
        and comp: "friComponent this pTree polyValues column newPolyValues cTree = Inr component"
        and res: "result' = result1\<lparr>ldp_components :=
                             array_set (ldp_components result1) depth component\<rparr>"
      by (auto simp: fri.simps [of this pTree polyValues] split: sum.splits)
    from big have e9: "9 \<le> e" by (rule pow2_gt_256)
    define e' where "e' = e - 2"
    have ee: "e = e' + 2" using e9 by (simp add: e'_def)
    have lenV: "length polyValues = 2 ^ e'"
      using e by (simp add: ee)
    define e'' where "e'' = e' - 2"
    have e'': "e' = e'' + 2" using e9 by (simp add: e''_def e'_def)
    have L4: "4 dvd length polyValues" by (simp add: lenV e'')
    have Lpos: "0 < length polyValues" by (simp add: lenV)
    have new4: "4 * length newPolyValues = 2 ^ e'"
      by (simp add: shape(2) lenV e'')
    have range1: "\<forall>p \<in> set (getFriIndexes (this_idxGenerator this)
                              (tree_root (this_merkle this) cTree) (length polyValues)).
                  p < length polyValues"
      using range by blast
    from honest_layer_accepted [OF four L4 Lpos dom_len dom L1 L2 L3 codec fold range1 st tree
           merkle, of depth]
      comp
    have root: "comp_columnRoot component = tree_root (this_merkle this) cTree"
      and one: "verifyComponent this (quarticRoots (this_field this) g (length domain)) depth st
                  (Some component) = Inr (nextState this st component)"
      by auto
    have dom_len': "length domain = 4 * 4 ^ (depth + 1) * length newPolyValues"
    proof -
      have "4 * length newPolyValues = length polyValues"
        by (simp add: new4 lenV)
      then have "4 * 4 ^ (depth + 1) * length newPolyValues = 4 * 4 ^ depth * length polyValues"
        by simp
      with dom_len show ?thesis by simp
    qed
    have st': "st_pRoot (nextState this st component) = tree_root (this_merkle this) cTree"
      "st_rootOfUnity (nextState this st component) = exp_f (this_field this) g (4 ^ (depth + 1))"
      "st_columnLength (nextState this st component) = length newPolyValues"
    proof -
      show "st_pRoot (nextState this st component) = tree_root (this_merkle this) cTree"
        by (simp add: nextState_def root)
      have "exp_f (this_field this) (exp_f (this_field this) g (4 ^ depth)) 4
            = exp_f (this_field this) g (4 ^ depth * 4)"
        using L2 by blast
      then show "st_rootOfUnity (nextState this st component)
                 = exp_f (this_field this) g (4 ^ (depth + 1))"
        by (simp add: nextState_def st(2) mult.commute)
      show "st_columnLength (nextState this st component) = length newPolyValues"
        by (simp add: nextState_def st(3) shape(2))
    qed
    have len': "length (ldp_components result) \<le> depth + 1"
      using len by simp
    from False fold
    have "\<exists>st'. verifyComponents this (quarticRoots (this_field this) g (length domain))
                   (depth + 1) (nextState this st component)
                   (drop (depth + 1) (ldp_components result1)) = Inr st'
              \<and> length (drop (depth + 1) (ldp_components result1)) = friLayers (2 ^ e')"
      using "1.IH" [OF _ _ _ rec shape(3) new4 dom_len' len' parts(2) st' dom L1 L2 L3 codec
               range merkle]
      by simp
    then obtain st1 where
      rest: "verifyComponents this (quarticRoots (this_field this) g (length domain))
                   (depth + 1) (nextState this st component)
                   (drop (depth + 1) (ldp_components result1)) = Inr st1"
      and n: "length (drop (depth + 1) (ldp_components result1)) = friLayers (2 ^ e')"
      by blast
    have layers: "friLayers (2 ^ e) = Suc (friLayers (2 ^ e'))"
      using friLayers_big [OF big] by (simp add: ee)
    have d: "drop depth (ldp_components result')
             = Some component # drop (depth + 1) (ldp_components result1)"
      by (simp add: res drop_array_set)
    have "verifyComponents this (quarticRoots (this_field this) g (length domain)) depth st
                 (drop depth (ldp_components result')) = Inr st1"
      unfolding d using one rest by simp
    moreover have "length (drop depth (ldp_components result')) = friLayers (2 ^ e)"
      unfolding d layers using n by simp
    ultimately show ?thesis by blast
  qed
qed

section \<open>C4: the degree bound at each depth\<close>













section \<open>C5: the number of components\<close>

text \<open>
  C5. For \<open>N = 2 ^ e\<close> evaluations and a domain of at least \<open>N\<close> points, the number
  computed by \<open>getComponentCount\<close> is \<open>min (\<lceil>e / 2\<rceil> - log 2 256 / 2) 0\<close>, the minimum
  and not the maximum. For \<open>e \<le> 6\<close> it is negative and \<open>prove\<close> returns no proof. A
  proof that \<open>prove\<close> returns has \<open>e \<ge> 7\<close> and \<open>max 0 (\<lceil>e / 2\<rceil> - 4)\<close> components: the
  array is made with no element and \<open>fri\<close> assigns one element for each fold. The same
  holds of the older \<open>prove\<close> on a matrix of four columns with \<open>N\<close> elements, where
  the error for \<open>e \<le> 6\<close> is the \<open>RangeError\<close> of the array constructor.
\<close>

theorem prove_component_count:
  assumes "length cEvaluations = 2 ^ e"
    and "2 ^ e \<le> length domain"
    and "fourColumns values_m"
    and "rowCount values_m * colCount values_m = 2 ^ e"
  shows "getComponentCount (length cEvaluations)
           = min (real_of_int \<lceil>real e / 2\<rceil> - REMAINDER_SLOTS) 0
       \<and> (e \<le> 6 \<longrightarrow> (\<forall>prf. prove this cEvaluations domain d \<noteq> Inr prf))
       \<and> (\<forall>prf. prove this cEvaluations domain d = Inr prf \<longrightarrow>
             7 \<le> e \<and> int (length (ldp_components prf)) = max 0 (\<lceil>real e / 2\<rceil> - 4))
       \<and> (e \<le> 6 \<longrightarrow> prove_old this lTree values_m domain d
                         = Inl (RangeError ''Invalid array length''))
       \<and> (\<forall>prf. prove_old this lTree values_m domain d = Inr prf \<longrightarrow>
             7 \<le> e \<and> int (length (old_components prf)) = max 0 (\<lceil>real e / 2\<rceil> - 4))"
proof -
  have count: "getComponentCount (length cEvaluations)
           = min (real_of_int \<lceil>real e / 2\<rceil> - REMAINDER_SLOTS) 0"
    by (simp add: assms(1) getComponentCount_pow2 REMAINDER_SLOTS_eq)
  have p: "prove this cEvaluations domain d
           = proveWithCount this cEvaluations domain d (getComponentCount (2 ^ e))"
    by (simp add: prove_def assms(1))
  have small: "prove this cEvaluations domain d \<noteq> Inr pf" if "e \<le> 6" for pf
    unfolding p by (rule proveWithCount_negative) (rule getComponentCount_negative [OF that])
  have big: "7 \<le> e \<and> int (length (ldp_components pf)) = max 0 (\<lceil>real e / 2\<rceil> - 4)"
    if ok: "prove this cEvaluations domain d = Inr pf" for pf
  proof -
    have e7: "7 \<le> e"
    proof (rule ccontr)
      assume "\<not> 7 \<le> e"
      then have "e \<le> 6" by simp
      from small [OF this, of pf] ok show False by simp
    qed
    from ok have "proveWithCount this cEvaluations domain d 0 = Inr pf"
      unfolding p getComponentCount_zero [OF e7] .
    then obtain prf0 where prf0: "ldp_components prf0 = []"
      and run: "fri this (digestValues (this_hash this) (this_field this)
                          (transposeVector cEvaluations 4 1))
                (transposeVector cEvaluations 4 1) d 0 domain prf0 = Inr pf"
      using proveWithCount_zero by blast
    have four: "4 * length (transposeVector cEvaluations 4 1) = 2 ^ e"
      using e7 by (simp add: length_transposeVector assms(1) pow2_quarter)
    have dom: "length (transposeVector cEvaluations 4 1) * (4 * 4 ^ 0) \<le> length domain"
      using four assms(2) by (simp add: mult.commute)
    from fri_shape [OF run fourColumns_transposeVector four dom]
    have "length (ldp_components pf) = friLayers (2 ^ e)"
      by (simp add: prf0)
    then have "int (length (ldp_components pf)) = max 0 (\<lceil>real e / 2\<rceil> - 4)"
      by (simp only: friLayers_formula)
    with e7 show ?thesis by simp
  qed
  note po = prove_old_count [OF assms(4)]
  have small_old: "prove_old this lTree values_m domain d
                         = Inl (RangeError ''Invalid array length'')" if "e \<le> 6"
    unfolding po using getComponentCount_negative [OF that]
    by (simp add: proveWithCount_old_def)
  have big_old: "7 \<le> e \<and> int (length (old_components pf)) = max 0 (\<lceil>real e / 2\<rceil> - 4)"
    if ok: "prove_old this lTree values_m domain d = Inr pf" for pf
  proof -
    have e7: "7 \<le> e"
    proof (rule ccontr)
      assume "\<not> 7 \<le> e"
      then have "e \<le> 6" by simp
      from small_old [OF this] ok show False by simp
    qed
    from ok have run: "fri_old this lTree values_m d 0 domain
                    \<lparr>old_components = [], old_remainder = []\<rparr> = Inr pf"
      unfolding po getComponentCount_zero [OF e7]
      by (simp add: proveWithCount_old_def)
    have inp: "4 * length values_m = 2 ^ e"
      "length values_m * (4 * 4 ^ 0) \<le> length domain"
      using fri_inputs [OF assms(3,4), of 0 domain] assms(2) by simp_all
    from fri_old_shape [OF run assms(3) inp]
    have "length (old_components pf) = friLayers (2 ^ e)"
      by simp
    then have "int (length (old_components pf)) = max 0 (\<lceil>real e / 2\<rceil> - 4)"
      by (simp only: friLayers_formula)
    with e7 show ?thesis by simp
  qed
  from count small big small_old big_old show ?thesis by blast
qed

lemma example_prove_small:
  "proveWithCount (prover17 0) [8, 1, 14, 2, 0, 11, 10, 7, 15, 5, 9, 4, 6, 12, 13, 16]
     [1, 3, 9, 10, 13, 5, 15, 11, 16, 14, 8, 7, 4, 12, 2, 6] 2 (- 2)
   = Inl (RangeError ''Invalid array length'')"
  by code_simp

lemma example_prove_128:
  "(case proveWithCount (prover257 0) line128 domain128 2 0 of
      Inl err \<Rightarrow> None
    | Inr prf \<Rightarrow> Some (length (ldp_components prf), length (ldp_remainder prf)))
   = Some (0, 128)"
  by code_simp

lemma example_lengths_128:
  "length line128 = 128" "length domain128 = 128"
  "fourColumns (transposeVector line128 4 1)"
  "rowCount (transposeVector line128 4 1) * colCount (transposeVector line128 4 1) = 128"
  by code_simp+


lemma example_count_16: "getComponentCount 16 = - 2"
proof -
  have "getComponentCount (2 ^ 4) = - 2"
    unfolding getComponentCount_pow2 by (simp add: ceiling_half)
  then show ?thesis by simp
qed

lemma example_count_128: "getComponentCount 128 = 0"
proof -
  have "getComponentCount (2 ^ 7) = 0"
    by (rule getComponentCount_zero) simp
  then show ?thesis by simp
qed

text \<open>
  The 128 evaluations of \<open>3 + 5 * x\<close> on the powers of 9 modulo 257: \<open>e = 7\<close>, the
  proof is returned and has no component.
\<close>

theorem prove_component_count_witness:
  "length line128 = 2 ^ 7 \<and> 2 ^ 7 \<le> length domain128
   \<and> fourColumns (transposeVector line128 4 1)
   \<and> rowCount (transposeVector line128 4 1) * colCount (transposeVector line128 4 1) = 2 ^ 7
   \<and> getComponentCount (length line128) = 0
   \<and> (\<exists>pf. prove (prover257 0) line128 domain128 2 = Inr pf
           \<and> int (length (ldp_components pf)) = max 0 (\<lceil>real 7 / 2\<rceil> - 4)
           \<and> length (ldp_components pf) = 0)"
proof -
  have l: "length line128 = 2 ^ 7" "2 ^ 7 \<le> length domain128"
    "fourColumns (transposeVector line128 4 1)"
    "rowCount (transposeVector line128 4 1) * colCount (transposeVector line128 4 1) = 2 ^ 7"
    using example_lengths_128 by simp_all
  note inst = prove_component_count
         [where this = "prover257 0" and d = 2 and lTree = "[]", OF l]
  have c: "getComponentCount (length line128) = 0"
    using inst [THEN conjunct1] by (simp add: REMAINDER_SLOTS_eq ceiling_half)
  obtain pf where pf: "proveWithCount (prover257 0) line128 domain128 2 0 = Inr pf"
    using example_prove_128
    by (cases "proveWithCount (prover257 0) line128 domain128 2 0") simp_all
  have run: "prove (prover257 0) line128 domain128 2 = Inr pf"
    by (simp add: prove_def c pf)
  from inst run have n: "int (length (ldp_components pf)) = max 0 (\<lceil>real 7 / 2\<rceil> - 4)"
    by blast
  then have "length (ldp_components pf) = 0"
    by (simp add: ceiling_half)
  with l c run n show ?thesis by blast
qed

text \<open>
  On the 16 evaluations of \<open>3 + 5 * x\<close> modulo 17 the number of components computed
  is \<open>min (2 - 4) 0 = - 2\<close> and \<open>prove\<close> ends in the \<open>RangeError\<close> of
  \<open>new Array(- 2)\<close>.
\<close>

theorem prove_small_input_throws:
  "getComponentCount (length [8, 1, 14, 2, 0, 11, 10, 7, 15, 5, 9, 4, 6, 12, 13, 16::int]) = - 2
   \<and> prove (prover17 0) [8, 1, 14, 2, 0, 11, 10, 7, 15, 5, 9, 4, 6, 12, 13, 16]
        [1, 3, 9, 10, 13, 5, 15, 11, 16, 14, 8, 7, 4, 12, 2, 6] 2
      = Inl (RangeError ''Invalid array length'')"
proof -
  have n: "length [8, 1, 14, 2, 0, 11, 10, 7, 15, 5, 9, 4, 6, 12, 13, 16::int] = 16"
    by simp
  show ?thesis
    unfolding prove_def n example_count_16 example_prove_small by simp
qed

section \<open>C6: the remainder check\<close>











section \<open>Augmented positions of a column (C7)\<close>



section \<open>Security options (C8)\<close>






lemma number_or_Some: "x \<noteq> 0 \<Longrightarrow> number_or (Some x) d = x"
  by (simp add: number_or_def)

lemma string_or_Some: "s \<noteq> [] \<Longrightarrow> string_or (Some s) d = s"
  by (simp add: string_or_def)








section \<open>C9: the older \<open>verify\<close> overwrites the values of the proof\<close>

lemma verifyComponent_old_values:
  assumes "parseColumnValues this (proof_values (comp_columnProof c))
             (getFriIndexes (this_idxGenerator this) (comp_columnRoot c) (st_rouDegree st div 4))
             (getAugmentedPositions
                (getFriIndexes (this_idxGenerator this) (comp_columnRoot c)
                   (st_rouDegree st div 4))
                (st_rouDegree st div 4))
             (st_rouDegree st div 4) = Inr vs"
  shows "\<exists>out c'. verifyComponent_old this q depth st (Some c) = (out, Some c')
           \<and> proof_values (comp_columnProof c')
               = hashBuffers (proof_values (comp_columnProof c)) (this_hash this)"
  using assms by (simp add: verifyComponent_old_def Let_def)

lemma verifyComponents_old_checked:
  "\<exists>out rest'. verifyComponents_old this q depth st checked comps = (out, checked @ rest')"
proof (induction comps arbitrary: depth st checked)
  case Nil
  then show ?case by simp
next
  case (Cons component comps)
  obtain out component' where v: "verifyComponent_old this q depth st component = (out, component')"
    by (cases "verifyComponent_old this q depth st component") auto
  show ?case
  proof (cases out)
    case (Inl e)
    with v show ?thesis by simp
  next
    case (Inr st')
    from Cons.IH [of "depth + 1" st' "checked @ [component']"]
    obtain out' rest' where "verifyComponents_old this q (depth + 1) st' (checked @ [component']) comps
                  = (out', (checked @ [component']) @ rest')"
      by blast
    with v Inr show ?thesis by simp
  qed
qed

lemma verifyComponents_old_first:
  assumes "verifyComponent_old this q 0 st (Some c) = (out, Some c')"
  shows "\<exists>out' rest'. verifyComponents_old this q 0 st [] (Some c # rest) = (out', Some c' # rest')"
proof (cases out)
  case (Inl e)
  with assms show ?thesis by simp
next
  case (Inr st')
  from verifyComponents_old_checked [of this q "0 + 1" st' "[Some c']" rest]
  obtain out' rest' where "verifyComponents_old this q (0 + 1) st' [Some c'] rest
                             = (out', [Some c'] @ rest')"
    by blast
  with assms Inr show ?thesis by simp
qed

text \<open>
  C9. The older \<open>verify\<close> does not leave the proof as it was. When the degree of the
  root of unity is found and the column values of the first component parse, the call
  ends, by return or by throw, with the first component's \<open>columnProof.values\<close>
  replaced by their digests; the proof object is then another one whenever the
  digests differ from the values. The newer \<open>verify\<close> assigns to its local variables
  only and is a function of its arguments.
\<close>

theorem verify_old_overwrites_values:
  assumes "getRootOfUnityDegree r (this_field this) = Some n"
    and "old_components prf = Some c # rest"
    and "parseColumnValues this (proof_values (comp_columnProof c))
             (getFriIndexes (this_idxGenerator this) (comp_columnRoot c) (n div 4))
             (getAugmentedPositions
                (getFriIndexes (this_idxGenerator this) (comp_columnRoot c) (n div 4))
                (n div 4))
             (n div 4) = Inr vs"
  shows "\<exists>out c' rest'.
           verify_old this lRoot d r prf = Some (out, prf\<lparr>old_components := Some c' # rest'\<rparr>)
           \<and> proof_values (comp_columnProof c')
               = hashBuffers (proof_values (comp_columnProof c)) (this_hash this)
           \<and> (hashBuffers (proof_values (comp_columnProof c)) (this_hash this)
                 \<noteq> proof_values (comp_columnProof c)
               \<longrightarrow> prf\<lparr>old_components := Some c' # rest'\<rparr> \<noteq> prf)"
proof -
  define st where "st = \<lparr>st_lRoot = lRoot, st_rootOfUnity_old = r,
                          st_maxDegreePlus1_old = d, st_rouDegree = n\<rparr>"
  define q where "q = quarticRoots (this_field this) r n"
  have "st_rouDegree st = n" by (simp add: st_def)
  with assms(3) obtain out c'
    where one: "verifyComponent_old this q 0 st (Some c) = (out, Some c')"
      and hashed: "proof_values (comp_columnProof c')
               = hashBuffers (proof_values (comp_columnProof c)) (this_hash this)"
    using verifyComponent_old_values [of this c st vs q 0] by auto
  from verifyComponents_old_first [OF one, of rest]
  obtain out' rest' where
    all: "verifyComponents_old this q 0 st [] (Some c # rest) = (out', Some c' # rest')"
    by blast
  have "\<exists>out. verify_old this lRoot d r prf
               = Some (out, prf\<lparr>old_components := Some c' # rest'\<rparr>)"
    by (cases out')
       (simp_all add: verify_old_def assms(1,2) Let_def st_def [symmetric] q_def [symmetric] all
          del: verifyComponents_old.simps split: sum.splits)
  moreover have "prf\<lparr>old_components := Some c' # rest'\<rparr> \<noteq> prf"
    if "hashBuffers (proof_values (comp_columnProof c)) (this_hash this)
                 \<noteq> proof_values (comp_columnProof c)"
  proof
    assume "prf\<lparr>old_components := Some c' # rest'\<rparr> = prf"
    then have "old_components (prf\<lparr>old_components := Some c' # rest'\<rparr>) = old_components prf"
      by simp
    then have "c' = c" by (simp add: assms(2))
    with hashed that show False by simp
  qed
  ultimately show ?thesis using hashed by blast
qed

lemma example_verify_old:
  "verify_old (prover17 0) [80] 8 3 proof16_old
   = Some (Inr True,
           \<lparr>old_components =
              [Some \<lparr>comp_columnRoot = [211],
                     comp_columnProof = \<lparr>proof_values = [[244]], proof_nodes = [[244]],
                                           proof_depth = 0\<rparr>,
                     comp_polyProof = \<lparr>proof_values = [[78], [56]],
                                         proof_nodes = [[56], [106], [11], [78]],
                                         proof_depth = 0\<rparr>\<rparr>],
            old_remainder = [[0], [14], [9], [12]]\<rparr>)"
  by code_simp

lemma example_degree: "getRootOfUnityDegree 3 (primeField 17 3) = Some 16"
  by code_simp

lemma example_columnValues:
  "parseColumnValues (prover17 0) [[0, 14, 9, 12]] (getFriIndexes (exampleGenerator 0) [211] 4)
     (getAugmentedPositions (getFriIndexes (exampleGenerator 0) [211] 4) 4) 4 = Inr [12, 0]"
  by code_simp

text \<open>
  The proof for \<open>3 + 5 * x + 2 * x ^ 5\<close> modulo 17: the older \<open>verify\<close> returns \<open>true\<close>
  and leaves the digest \<open>[244]\<close> where the row \<open>[0, 14, 9, 12]\<close> was.
\<close>

theorem verify_old_overwrites_values_witness:
  "getRootOfUnityDegree 3 (this_field (prover17 0)) = Some 16
   \<and> old_components proof16_old = [Some component16]
   \<and> hashBuffers (proof_values (comp_columnProof component16)) (this_hash (prover17 0))
       \<noteq> proof_values (comp_columnProof component16)
   \<and> (\<exists>out c' rest'.
         verify_old (prover17 0) [80] 8 3 proof16_old
           = Some (out, proof16_old\<lparr>old_components := Some c' # rest'\<rparr>)
         \<and> proof_values (comp_columnProof c') = [[244]]
         \<and> proof16_old\<lparr>old_components := Some c' # rest'\<rparr> \<noteq> proof16_old)"
proof -
  have h1: "getRootOfUnityDegree 3 (this_field (prover17 0)) = Some 16"
    using example_degree by (simp add: prover17_def)
  have h2: "old_components proof16_old = Some component16 # []"
    by (simp add: proof16_old_def)
  have h3: "parseColumnValues (prover17 0) (proof_values (comp_columnProof component16))
             (getFriIndexes (this_idxGenerator (prover17 0)) (comp_columnRoot component16)
                (16 div 4))
             (getAugmentedPositions
                (getFriIndexes (this_idxGenerator (prover17 0)) (comp_columnRoot component16)
                   (16 div 4))
                (16 div 4))
             (16 div 4) = Inr [12, 0]"
    using example_columnValues by (simp add: component16_def prover17_def)
  have hashed: "hashBuffers (proof_values (comp_columnProof component16))
                  (this_hash (prover17 0)) = [[244]]"
    by code_simp
  have differ: "hashBuffers (proof_values (comp_columnProof component16))
                  (this_hash (prover17 0))
                \<noteq> proof_values (comp_columnProof component16)"
    unfolding hashed by (simp add: component16_def)
  from verify_old_overwrites_values [OF h1 h2 h3, of "[80]" 8] differ
  have "\<exists>out c' rest'.
         verify_old (prover17 0) [80] 8 3 proof16_old
           = Some (out, proof16_old\<lparr>old_components := Some c' # rest'\<rparr>)
         \<and> proof_values (comp_columnProof c') = [[244]]
         \<and> proof16_old\<lparr>old_components := Some c' # rest'\<rparr> \<noteq> proof16_old"
    unfolding hashed by blast
  with h1 h2 differ show ?thesis by simp
qed

theorem verify_old_changes_proof:
  "fst (the (verify_old (prover17 0) [80] 8 3 proof16_old)) = Inr True
   \<and> snd (the (verify_old (prover17 0) [80] 8 3 proof16_old)) \<noteq> proof16_old
   \<and> map (map_option (\<lambda>c. proof_values (comp_columnProof c)))
        (old_components (snd (the (verify_old (prover17 0) [80] 8 3 proof16_old))))
       = [Some [[244]]]
   \<and> map (map_option (\<lambda>c. proof_values (comp_columnProof c))) (old_components proof16_old)
       = [Some [[0, 14, 9, 12]]]"
  unfolding example_verify_old by (simp add: proof16_old_def component16_def)

section \<open>Augmented positions of the evaluation tree (C10)\<close>









end
